theory Spec2Isabelle
  imports Complex_Main "HOL-Library.Sublist"
begin

section \<open>Exec approvals: security and ask modes\<close>

text \<open>
  The three string-literal union types of \<^verbatim>\<open>src/infra/exec-approvals.ts\<close>:
  \<^verbatim>\<open>ExecHost = "sandbox" | "gateway" | "node"\<close>,
  \<^verbatim>\<open>ExecSecurity = "deny" | "allowlist" | "full"\<close> and
  \<^verbatim>\<open>ExecAsk = "off" | "on-miss" | "always"\<close>.
\<close>

datatype ExecHost = HostSandbox | HostGateway | HostNode

datatype ExecSecurity = SecDeny | SecAllowlist | SecFull

datatype ExecAsk = AskOff | AskOnMiss | AskAlways

text \<open>
  The local table \<^verbatim>\<open>order\<close> of \<^verbatim>\<open>minSecurity\<close>:
  \<^verbatim>\<open>{ deny: 0, allowlist: 1, full: 2 }\<close>.
\<close>

fun securityOrder :: "ExecSecurity \<Rightarrow> nat" where
  "securityOrder SecDeny = 0"
| "securityOrder SecAllowlist = 1"
| "securityOrder SecFull = 2"

text \<open>
  The local table \<^verbatim>\<open>order\<close> of \<^verbatim>\<open>maxAsk\<close>:
  \<^verbatim>\<open>{ off: 0, "on-miss": 1, always: 2 }\<close>.
\<close>

fun askOrder :: "ExecAsk \<Rightarrow> nat" where
  "askOrder AskOff = 0"
| "askOrder AskOnMiss = 1"
| "askOrder AskAlways = 2"

text \<open>\<^verbatim>\<open>return order[a] <= order[b] ? a : b;\<close>\<close>

definition minSecurity :: "ExecSecurity \<Rightarrow> ExecSecurity \<Rightarrow> ExecSecurity" where
  "minSecurity a b = (if securityOrder a \<le> securityOrder b then a else b)"

text \<open>\<^verbatim>\<open>return order[a] >= order[b] ? a : b;\<close>\<close>

definition maxAsk :: "ExecAsk \<Rightarrow> ExecAsk \<Rightarrow> ExecAsk" where
  "maxAsk a b = (if askOrder a \<ge> askOrder b then a else b)"

section \<open>JavaScript strings\<close>

text \<open>
  A JavaScript string is a sequence of UTF-16 code units. The model writes one
  \<^typ>\<open>char\<close> per code unit and so covers the strings whose code units are below
  \<^verbatim>\<open>0x100\<close> (ASCII and Latin-1), which is where command names, paths, host names
  and the mode keywords live.
\<close>

text \<open>
  \<^verbatim>\<open>String.prototype.trim\<close> strips white space and line terminators from both ends.
  Below \<^verbatim>\<open>0x100\<close> these are TAB, LF, VT, FF, CR, SPACE and NBSP.
\<close>

definition isJsWhitespace :: "char \<Rightarrow> bool" where
  "isJsWhitespace c =
     (c = CHR 0x09 \<or> c = CHR 0x0A \<or> c = CHR 0x0B \<or> c = CHR 0x0C \<or> c = CHR 0x0D
      \<or> c = CHR 0x20 \<or> c = CHR 0xA0)"

definition trimStart :: "string \<Rightarrow> string" where
  "trimStart s = dropWhile isJsWhitespace s"

definition trimEnd :: "string \<Rightarrow> string" where
  "trimEnd s = rev (dropWhile isJsWhitespace (rev s))"

definition trim :: "string \<Rightarrow> string" where
  "trim s = trimEnd (trimStart s)"

text \<open>
  \<^verbatim>\<open>String.prototype.toLowerCase\<close>, code unit by code unit: below \<^verbatim>\<open>0x100\<close> the
  letters with a lower-case partner are \<^verbatim>\<open>A\<close>..\<^verbatim>\<open>Z\<close> and \<^verbatim>\<open>U+00C0\<close>..\<^verbatim>\<open>U+00DE\<close>
  without the multiplication sign \<^verbatim>\<open>U+00D7\<close>; the partner is \<^verbatim>\<open>0x20\<close> higher.
\<close>

definition upperCode :: "nat \<Rightarrow> bool" where
  "upperCode n = ((65 \<le> n \<and> n \<le> 90) \<or> (192 \<le> n \<and> n \<le> 222 \<and> n \<noteq> 215))"

definition lowerCode :: "nat \<Rightarrow> nat" where
  "lowerCode n = (if upperCode n then n + 32 else n)"

definition toLowerChar :: "char \<Rightarrow> char" where
  "toLowerChar c = char_of (lowerCode (of_char c))"

definition toLowerCase :: "string \<Rightarrow> string" where
  "toLowerCase s = map toLowerChar s"

text \<open>\<^verbatim>\<open>s.startsWith(p)\<close>, \<^verbatim>\<open>s.endsWith(p)\<close> and \<^verbatim>\<open>s.includes(c)\<close> for one character.\<close>

definition startsWith :: "string \<Rightarrow> string \<Rightarrow> bool" where
  "startsWith s p = prefix p s"


definition includesChar :: "string \<Rightarrow> char \<Rightarrow> bool" where
  "includesChar s c = (c \<in> set s)"

section \<open>The approvals file and its resolution\<close>

text \<open>
  The types of \<^verbatim>\<open>src/infra/exec-approvals.ts\<close>. An optional property is an
  \<^typ>\<open>'a option\<close>; \<^verbatim>\<open>Record<string, ExecApprovalsAgent>\<close> is a map from agent ids.
  \<^verbatim>\<open>ExecApprovalsAgent\<close> is \<^verbatim>\<open>ExecApprovalsDefaults & { allowlist? }\<close>, a record
  extension. The property \<^verbatim>\<open>version\<close> has the one-value type \<^verbatim>\<open>1\<close> and carries no
  information at this type.
\<close>

record ExecApprovalsDefaults =
  security :: "ExecSecurity option"
  ask :: "ExecAsk option"
  askFallback :: "ExecSecurity option"
  autoAllowSkills :: "bool option"

record ExecAllowlistEntry =
  pattern :: string
  lastUsedAt :: "nat option"
  lastUsedCommand :: "string option"
  lastResolvedPath :: "string option"

record ExecApprovalsAgent = ExecApprovalsDefaults +
  allowlist :: "ExecAllowlistEntry list option"

record ExecApprovalsSocket =
  socket_path :: "string option"
  socket_token :: "string option"

record ExecApprovalsFile =
  file_socket :: "ExecApprovalsSocket option"
  file_defaults :: "ExecApprovalsDefaults option"
  file_agents :: "(string \<rightharpoonup> ExecApprovalsAgent) option"

text \<open>\<^verbatim>\<open>Required<ExecApprovalsDefaults>\<close>: every property is present.\<close>

record RequiredDefaults =
  req_security :: ExecSecurity
  req_ask :: ExecAsk
  req_askFallback :: ExecSecurity
  req_autoAllowSkills :: bool

record ExecApprovalsResolved =
  resolved_path :: string
  resolved_socketPath :: string
  resolved_token :: string
  resolved_defaults :: RequiredDefaults
  resolved_agent :: RequiredDefaults
  resolved_allowlist :: "ExecAllowlistEntry list"
  resolved_file :: ExecApprovalsFile

text \<open>
  What the module takes from Node: \<^verbatim>\<open>os.homedir()\<close>, \<^verbatim>\<open>path.join\<close> and the
  outcome of \<^verbatim>\<open>crypto.randomBytes(24).toString("base64url")\<close>.
\<close>

record Platform =
  homedir :: string
  pathJoin :: "string \<Rightarrow> string \<Rightarrow> string"
  randomToken :: string







text \<open>
  \<^verbatim>\<open>expandHome\<close>: the empty string and every value that is not \<^verbatim>\<open>~\<close> and does not
  start with \<^verbatim>\<open>~/\<close> are returned as they are.
\<close>

definition expandHome :: "Platform \<Rightarrow> string \<Rightarrow> string" where
  "expandHome os v =
     (if v = [] then v
      else if v = ''~'' then homedir os
      else if startsWith v ''~/'' then pathJoin os (homedir os) (drop 2 v)
      else v)"











definition nullishOr :: "'a option \<Rightarrow> 'a \<Rightarrow> 'a" where
  "nullishOr a b = (case a of Some x \<Rightarrow> x | None \<Rightarrow> b)"






section \<open>Allowlist patterns\<close>

record CommandResolution =
  rawExecutable :: string
  resolvedPath :: "string option"
  executableName :: string

text \<open>
  \<^verbatim>\<open>normalizeMatchTarget\<close>: \<^verbatim>\<open>value.replace(/\\\\/g, "/").toLowerCase()\<close>. The
  regular expression literal \<^verbatim>\<open>/\\\\/g\<close> is two escaped backslashes: every pair of
  adjacent backslashes, scanned from the left, becomes one \<^verbatim>\<open>/\<close>; a single backslash
  stays.
\<close>

fun replaceBackslashPairs :: "string \<Rightarrow> string" where
  "replaceBackslashPairs (a # b # rest) =
     (if a = CHR 0x5C \<and> b = CHR 0x5C then CHR ''/'' # replaceBackslashPairs rest
      else a # replaceBackslashPairs (b # rest))"
| "replaceBackslashPairs s = s"

definition normalizeMatchTarget :: "string \<Rightarrow> string" where
  "normalizeMatchTarget v = toLowerCase (replaceBackslashPairs v)"

text \<open>
  The escaping step of \<^verbatim>\<open>globToRegExp\<close>:
  \<^verbatim>\<open>ch.replace(/[.*+?^${}()|[\\]\\\\]/g, "\\$&")\<close>. The literal reads as the class
  \<^verbatim>\<open>[.*+?^${}()|[\\]\<close> (the listed characters and the backslash), followed by two
  backslashes and a closing bracket: it matches four characters, and the replacement
  puts a backslash before the match.
\<close>

definition inEscapeClass :: "char \<Rightarrow> bool" where
  "inEscapeClass c = (c \<in> set ''.*+?^${}()|['' \<or> c = CHR 0x5C)"

fun escapeRegExp :: "string \<Rightarrow> string" where
  "escapeRegExp (a # b # c # d # rest) =
     (if inEscapeClass a \<and> b = CHR 0x5C \<and> c = CHR 0x5C \<and> d = CHR '']''
      then CHR 0x5C # a # b # c # d # escapeRegExp rest
      else a # escapeRegExp (b # c # d # rest))"
| "escapeRegExp s = s"

text \<open>
  The loop of \<^verbatim>\<open>globToRegExp\<close> over the pattern, as a recursion on what is left of it:
  \<^verbatim>\<open>**\<close> appends \<^verbatim>\<open>.*\<close>, a single \<^verbatim>\<open>*\<close> appends \<^verbatim>\<open>[^/]*\<close>, \<^verbatim>\<open>?\<close> appends
  \<^verbatim>\<open>.\<close>, every other character is appended after the escaping step.
\<close>

fun globBody :: "string \<Rightarrow> string" where
  "globBody [] = []"
| "globBody (ch # rest) =
     (if ch = CHR ''*'' then
        (case rest of
           [] \<Rightarrow> ''[^/]*''
         | nxt # rest' \<Rightarrow>
             if nxt = CHR ''*'' then ''.*'' @ globBody rest'
             else ''[^/]*'' @ globBody rest)
      else if ch = CHR ''?'' then ''.'' @ globBody rest
      else escapeRegExp [ch] @ globBody rest)"

text \<open>The source text of the expression \<^verbatim>\<open>globToRegExp\<close> compiles with the flag \<^verbatim>\<open>i\<close>.\<close>

definition globToRegExp :: "string \<Rightarrow> string" where
  "globToRegExp pat = ''^'' @ globBody pat @ ''$''"

subsection \<open>A fragment of JavaScript regular expressions\<close>

text \<open>
  \<^verbatim>\<open>new RegExp(source, "i").test(target)\<close> is JavaScript's, not the repository's. The
  model covers the sources of the shape \<^verbatim>\<open>^ item* $\<close> where an item is an atom or an
  atom followed by \<^verbatim>\<open>*\<close>, and an atom is \<^verbatim>\<open>.\<close>, the class \<^verbatim>\<open>[^/]\<close> or a pattern
  character, that is any character but the syntax characters
  \<^verbatim>\<open>^ $ \ . * + ? ( ) [ ] { } |\<close>. For every other source the model answers
  \<^term>\<open>None\<close>: JavaScript may throw a \<^verbatim>\<open>SyntaxError\<close> there or apply operators the
  model does not have.
\<close>

datatype RxAtom = RxAny | RxNotSlash | RxChar char

datatype RxToken = TAtom RxAtom | TStar

datatype RxItem = RxOne RxAtom | RxStar RxAtom

definition isSyntaxChar :: "char \<Rightarrow> bool" where
  "isSyntaxChar c = (c \<in> set ''^$.*+?()[]{}|'' \<or> c = CHR 0x5C)"

fun lexRegExp :: "string \<Rightarrow> RxToken list option" where
  "lexRegExp [] = Some []"
| "lexRegExp (c # cs) =
     (if c = CHR ''.'' then map_option (Cons (TAtom RxAny)) (lexRegExp cs)
      else if c = CHR ''*'' then map_option (Cons TStar) (lexRegExp cs)
      else if c = CHR ''['' then
        (case cs of
           c1 # c2 # c3 # rest \<Rightarrow>
             if c1 = CHR ''^'' \<and> c2 = CHR ''/'' \<and> c3 = CHR '']''
             then map_option (Cons (TAtom RxNotSlash)) (lexRegExp rest)
             else None
         | _ \<Rightarrow> None)
      else if isSyntaxChar c then None
      else map_option (Cons (TAtom (RxChar c))) (lexRegExp cs))"

fun groupItems :: "RxToken list \<Rightarrow> RxItem list option" where
  "groupItems [] = Some []"
| "groupItems (TAtom a # TStar # ts) = map_option (Cons (RxStar a)) (groupItems ts)"
| "groupItems (TAtom a # ts) = map_option (Cons (RxOne a)) (groupItems ts)"
| "groupItems (TStar # ts) = None"

definition parseRegExp :: "string \<Rightarrow> RxItem list option" where
  "parseRegExp src =
     (case src of
        [] \<Rightarrow> None
      | c # cs \<Rightarrow>
          if c = CHR ''^'' \<and> cs \<noteq> [] \<and> last cs = CHR ''$''
          then (case lexRegExp (butlast cs) of None \<Rightarrow> None | Some ts \<Rightarrow> groupItems ts)
          else None)"

text \<open>
  With the flag \<^verbatim>\<open>i\<close> and without \<^verbatim>\<open>u\<close> two characters are compared after
  \<^verbatim>\<open>Canonicalize\<close>, which takes the upper-case partner of a character when that is one
  code unit. Below \<^verbatim>\<open>0x100\<close>: \<^verbatim>\<open>a\<close>..\<^verbatim>\<open>z\<close> and \<^verbatim>\<open>U+00E0\<close>..\<^verbatim>\<open>U+00FE\<close> without the
  division sign go \<^verbatim>\<open>0x20\<close> down, \<^verbatim>\<open>U+00FF\<close> goes to \<^verbatim>\<open>U+0178\<close> and the micro
  sign \<^verbatim>\<open>U+00B5\<close> to \<^verbatim>\<open>U+039C\<close>. The result is a code unit, hence a number.
\<close>

definition canonCode :: "nat \<Rightarrow> nat" where
  "canonCode n =
     (if (97 \<le> n \<and> n \<le> 122) \<or> (224 \<le> n \<and> n \<le> 254 \<and> n \<noteq> 247) then n - 32
      else if n = 255 then 376
      else if n = 181 then 924
      else n)"

definition canonicalize :: "char \<Rightarrow> nat" where
  "canonicalize c = canonCode (of_char c)"

text \<open>Without the flag \<^verbatim>\<open>s\<close> the dot matches every character but a line terminator.\<close>

definition isLineTerminator :: "char \<Rightarrow> bool" where
  "isLineTerminator c = (c = CHR 0x0A \<or> c = CHR 0x0D)"

fun atomMatches :: "RxAtom \<Rightarrow> char \<Rightarrow> bool" where
  "atomMatches RxAny c = (\<not> isLineTerminator c)"
| "atomMatches RxNotSlash c = (canonicalize c \<noteq> canonicalize (CHR ''/''))"
| "atomMatches (RxChar p) c = (canonicalize p = canonicalize c)"

text \<open>
  Whether the items match the whole of the target. Both anchors are in the source, so
  \<^verbatim>\<open>test\<close> succeeds exactly when some way of sharing out the target between the items
  exists.
\<close>

fun matchItems :: "RxItem list \<Rightarrow> string \<Rightarrow> bool" where
  "matchItems [] s = (s = [])"
| "matchItems (RxOne a # items) [] = False"
| "matchItems (RxOne a # items) (c # s) = (atomMatches a c \<and> matchItems items s)"
| "matchItems (RxStar a # items) [] = matchItems items []"
| "matchItems (RxStar a # items) (c # s) =
     (matchItems items (c # s) \<or> (atomMatches a c \<and> matchItems (RxStar a # items) s))"

definition regExpTest :: "string \<Rightarrow> string \<Rightarrow> bool option" where
  "regExpTest src target = map_option (\<lambda>items. matchItems items target) (parseRegExp src)"

subsection \<open>Matching an entry and a list of entries\<close>

text \<open>
  \<^verbatim>\<open>matchesPattern\<close>: an empty trimmed pattern matches nothing; a pattern that starts
  with \<^verbatim>\<open>~\<close> goes through \<^verbatim>\<open>expandHome\<close>; pattern and target are normalised and the
  compiled pattern is tested on the target.
\<close>

definition matchesPattern :: "Platform \<Rightarrow> string \<Rightarrow> string \<Rightarrow> bool option" where
  "matchesPattern os pat target =
     (let trimmed = trim pat in
      if trimmed = [] then Some False
      else
        (let expanded = (if startsWith trimmed ''~'' then expandHome os trimmed else trimmed);
             normalizedPattern = normalizeMatchTarget expanded;
             normalizedTarget = normalizeMatchTarget target
         in regExpTest (globToRegExp normalizedPattern) normalizedTarget))"

text \<open>
  The result of \<^verbatim>\<open>matchAllowlist\<close>: the first entry that matches, \<^verbatim>\<open>null\<close>, or, when
  an entry that had to be tested compiles to an expression outside the fragment, no
  statement.
\<close>

datatype MatchResult = Matched ExecAllowlistEntry | NoMatch | MatchUnmodelled

text \<open>
  The loop of \<^verbatim>\<open>matchAllowlist\<close>. An entry whose trimmed pattern is empty is skipped.
  \<^verbatim>\<open>hasPath\<close> holds when the trimmed pattern includes \<^verbatim>\<open>/\<close>, a backslash or
  \<^verbatim>\<open>~\<close>; then the target is \<^verbatim>\<open>resolvedPath ?? rawExecutable\<close>, otherwise it is
  \<^verbatim>\<open>executableName\<close>; an empty target is not tested.
\<close>

fun matchEntries :: "Platform \<Rightarrow> CommandResolution \<Rightarrow> ExecAllowlistEntry list \<Rightarrow> MatchResult" where
  "matchEntries os r [] = NoMatch"
| "matchEntries os r (entry # rest) =
     (let pat = trim (pattern entry) in
      if pat = [] then matchEntries os r rest
      else
        (let hasPath = (includesChar pat (CHR ''/'') \<or> includesChar pat (CHR 0x5C)
                        \<or> includesChar pat (CHR ''~''));
             target = (if hasPath then nullishOr (resolvedPath r) (rawExecutable r)
                       else executableName r)
         in if target = [] then matchEntries os r rest
            else (case matchesPattern os pat target of
                    None \<Rightarrow> MatchUnmodelled
                  | Some True \<Rightarrow> Matched entry
                  | Some False \<Rightarrow> matchEntries os r rest)))"

text \<open>\<^verbatim>\<open>if (!entries.length || !resolution) return null;\<close> and then the loop.\<close>

definition matchAllowlist ::
  "Platform \<Rightarrow> ExecAllowlistEntry list \<Rightarrow> CommandResolution option \<Rightarrow> MatchResult" where
  "matchAllowlist os entries resolution =
     (case resolution of
        None \<Rightarrow> NoMatch
      | Some r \<Rightarrow> if entries = [] then NoMatch else matchEntries os r entries)"

subsection \<open>The glob semantics in the words of the specification\<close>

text \<open>
  \<^verbatim>\<open>**\<close> matches any characters including path separators; \<^verbatim>\<open>*\<close> matches anything
  except a path separator; \<^verbatim>\<open>?\<close> matches one character; every other character
  matches itself, case-insensitively.
\<close>

datatype GlobToken = GlobStarStar | GlobStar | GlobQuestion | GlobChar char

fun globTokens :: "string \<Rightarrow> GlobToken list" where
  "globTokens [] = []"
| "globTokens (ch # rest) =
     (if ch = CHR ''*'' then
        (case rest of
           [] \<Rightarrow> [GlobStar]
         | nxt # rest' \<Rightarrow>
             if nxt = CHR ''*'' then GlobStarStar # globTokens rest'
             else GlobStar # globTokens rest)
      else if ch = CHR ''?'' then GlobQuestion # globTokens rest
      else GlobChar ch # globTokens rest)"

fun globMatches :: "GlobToken list \<Rightarrow> string \<Rightarrow> bool" where
  "globMatches [] s = (s = [])"
| "globMatches (GlobStarStar # ts) [] = globMatches ts []"
| "globMatches (GlobStarStar # ts) (c # s) =
     (globMatches ts (c # s) \<or> globMatches (GlobStarStar # ts) s)"
| "globMatches (GlobStar # ts) [] = globMatches ts []"
| "globMatches (GlobStar # ts) (c # s) =
     (globMatches ts (c # s) \<or> (c \<noteq> CHR ''/'' \<and> globMatches (GlobStar # ts) s))"
| "globMatches (GlobQuestion # ts) [] = False"
| "globMatches (GlobQuestion # ts) (c # s) = globMatches ts s"
| "globMatches (GlobChar p # ts) [] = False"
| "globMatches (GlobChar p # ts) (c # s) =
     (toLowerChar p = toLowerChar c \<and> globMatches ts s)"

text \<open>
  The matcher as the specification words it: a pattern that contains a path separator
  is matched against the resolved path, or the raw executable when there is none, any
  other pattern against the executable name; the first entry that matches wins.
\<close>

definition specTarget :: "string \<Rightarrow> CommandResolution \<Rightarrow> string" where
  "specTarget pat r =
     (if includesChar pat (CHR ''/'') \<or> includesChar pat (CHR 0x5C)
      then nullishOr (resolvedPath r) (rawExecutable r)
      else executableName r)"

definition specMatchAllowlist ::
  "ExecAllowlistEntry list \<Rightarrow> CommandResolution \<Rightarrow> ExecAllowlistEntry option" where
  "specMatchAllowlist entries r =
     find (\<lambda>e. globMatches (globTokens (pattern e)) (specTarget (pattern e) r)) entries"

subsection \<open>What the code matches, for patterns without regular-expression syntax\<close>

text \<open>
  A pattern is glob-only when none of its characters is a syntax character of regular
  expressions other than \<^verbatim>\<open>*\<close> and \<^verbatim>\<open>?\<close>. A string is line-free when it has no
  line terminator.
\<close>

definition globOnly :: "string \<Rightarrow> bool" where
  "globOnly pat = list_all (\<lambda>c. \<not> isSyntaxChar c \<or> c = CHR ''*'' \<or> c = CHR ''?'') pat"

definition lineFree :: "string \<Rightarrow> bool" where
  "lineFree s = list_all (\<lambda>c. \<not> isLineTerminator c) s"

definition lineFreeResolution :: "CommandResolution \<Rightarrow> bool" where
  "lineFreeResolution r =
     (lineFree (rawExecutable r) \<and> lineFree (executableName r)
      \<and> (case resolvedPath r of None \<Rightarrow> True | Some p \<Rightarrow> lineFree p))"

text \<open>
  The target the code picks for a trimmed pattern, and what it means for an entry to
  match: the trimmed pattern is not empty, the target is not empty, and the pattern
  with its home directory expanded matches, as a glob, the target with its backslash
  pairs read as \<^verbatim>\<open>/\<close>.
\<close>

definition codeTarget :: "string \<Rightarrow> CommandResolution \<Rightarrow> string" where
  "codeTarget pat r =
     (if includesChar pat (CHR ''/'') \<or> includesChar pat (CHR 0x5C) \<or> includesChar pat (CHR ''~'')
      then nullishOr (resolvedPath r) (rawExecutable r)
      else executableName r)"

definition entryMatches :: "Platform \<Rightarrow> CommandResolution \<Rightarrow> ExecAllowlistEntry \<Rightarrow> bool" where
  "entryMatches os r e =
     (trim (pattern e) \<noteq> [] \<and> codeTarget (trim (pattern e)) r \<noteq> []
      \<and> globMatches (globTokens (expandHome os (trim (pattern e))))
            (replaceBackslashPairs (codeTarget (trim (pattern e)) r)))"

definition firstMatch :: "Platform \<Rightarrow> CommandResolution \<Rightarrow> ExecAllowlistEntry list \<Rightarrow> MatchResult" where
  "firstMatch os r entries =
     (case find (entryMatches os r) entries of None \<Rightarrow> NoMatch | Some e \<Rightarrow> Matched e)"

text \<open>The regular-expression item of a glob token, and the tokens of an item.\<close>

fun tokItem :: "GlobToken \<Rightarrow> RxItem" where
  "tokItem GlobStarStar = RxStar RxAny"
| "tokItem GlobStar = RxStar RxNotSlash"
| "tokItem GlobQuestion = RxOne RxAny"
| "tokItem (GlobChar c) = RxOne (RxChar c)"

fun itemTokens :: "RxItem \<Rightarrow> RxToken list" where
  "itemTokens (RxOne a) = [TAtom a]"
| "itemTokens (RxStar a) = [TAtom a, TStar]"

fun lowerToken :: "GlobToken \<Rightarrow> GlobToken" where
  "lowerToken (GlobChar c) = GlobChar (toLowerChar c)"
| "lowerToken t = t"

section \<open>Loading the approvals file from disk\<close>

text \<open>
  \<^verbatim>\<open>loadExecApprovals\<close> casts whatever \<^verbatim>\<open>JSON.parse\<close> returns to
  \<^verbatim>\<open>ExecApprovalsFile\<close>, so at run time \<^verbatim>\<open>normalizeExecApprovals\<close> works on an
  arbitrary JSON value. This section models that run: JSON values, \<^verbatim>\<open>undefined\<close> as
  \<^term>\<open>None\<close>, and the \<^verbatim>\<open>TypeError\<close> of a property read on \<^verbatim>\<open>null\<close> or of a
  call of something that is not a function. An object is a list of bindings read by
  \<^term>\<open>map_of\<close>; a property whose value is \<^verbatim>\<open>undefined\<close> is left out of the list,
  which no property read can tell apart.
\<close>

datatype json =
    JNull
  | JBool bool
  | JNum real
  | JStr string
  | JArr "json list"
  | JObj "(string \<times> json) list"

datatype JsError = TypeError | SyntaxError | IoError

text \<open>
  \<^verbatim>\<open>x[k]\<close> for a value that is neither \<^verbatim>\<open>null\<close> nor \<^verbatim>\<open>undefined\<close>. The keys read
  here (\<^verbatim>\<open>version\<close>, \<^verbatim>\<open>socket\<close>, \<^verbatim>\<open>path\<close>, \<^verbatim>\<open>token\<close>, \<^verbatim>\<open>defaults\<close>,
  \<^verbatim>\<open>security\<close>, \<^verbatim>\<open>ask\<close>, \<^verbatim>\<open>askFallback\<close>, \<^verbatim>\<open>autoAllowSkills\<close>, \<^verbatim>\<open>agents\<close>) are
  no properties of a string, a number, a boolean or an array.
\<close>

fun getProp :: "json \<Rightarrow> string \<Rightarrow> json option" where
  "getProp (JObj kvs) k = map_of kvs k"
| "getProp v k = None"

text \<open>\<^verbatim>\<open>a?.k\<close>: \<^verbatim>\<open>undefined\<close> when \<^verbatim>\<open>a\<close> is \<^verbatim>\<open>null\<close> or \<^verbatim>\<open>undefined\<close>.\<close>

definition optChain :: "json option \<Rightarrow> string \<Rightarrow> json option" where
  "optChain a k = (case a of None \<Rightarrow> None | Some JNull \<Rightarrow> None | Some x \<Rightarrow> getProp x k)"

text \<open>\<^verbatim>\<open>a.k\<close>: a \<^verbatim>\<open>TypeError\<close> when \<^verbatim>\<open>a\<close> is \<^verbatim>\<open>null\<close> or \<^verbatim>\<open>undefined\<close>.\<close>

definition member :: "json option \<Rightarrow> string \<Rightarrow> JsError + json option" where
  "member a k =
     (case a of None \<Rightarrow> Inl TypeError | Some JNull \<Rightarrow> Inl TypeError
      | Some x \<Rightarrow> Inr (getProp x k))"

text \<open>
  \<^verbatim>\<open>v?.trim()\<close>: \<^verbatim>\<open>undefined\<close> for \<^verbatim>\<open>null\<close> and \<^verbatim>\<open>undefined\<close>, the trimmed string
  for a string, and a \<^verbatim>\<open>TypeError\<close> for every other value, whose \<^verbatim>\<open>trim\<close> is not a
  function.
\<close>

definition optTrim :: "json option \<Rightarrow> JsError + string option" where
  "optTrim v =
     (case v of None \<Rightarrow> Inr None | Some JNull \<Rightarrow> Inr None
      | Some (JStr s) \<Rightarrow> Inr (Some (trim s))
      | Some other \<Rightarrow> Inl TypeError)"

text \<open>\<^verbatim>\<open>a ?? b\<close> on JSON values.\<close>

definition nullishJson :: "json option \<Rightarrow> json \<Rightarrow> json" where
  "nullishJson a b = (case a of None \<Rightarrow> b | Some JNull \<Rightarrow> b | Some x \<Rightarrow> x)"

text \<open>A property of an object literal: left out when its value is \<^verbatim>\<open>undefined\<close>.\<close>

definition objProp :: "string \<Rightarrow> json option \<Rightarrow> (string \<times> json) list" where
  "objProp k v = (case v of None \<Rightarrow> [] | Some x \<Rightarrow> [(k, x)])"

text \<open>\<^verbatim>\<open>s && s.length > 0 ? s : undefined\<close> for a trimmed string.\<close>

definition nonEmptyStr :: "string option \<Rightarrow> json option" where
  "nonEmptyStr v = (case v of None \<Rightarrow> None | Some s \<Rightarrow> (if s \<noteq> [] then Some (JStr s) else None))"

text \<open>
  \<^verbatim>\<open>normalizeExecApprovals\<close> on a run-time value, in the order of evaluation of the
  source: the socket path, the token, then the object literal.
\<close>

definition normalizeExecApprovalsJson :: "json option \<Rightarrow> JsError + json" where
  "normalizeExecApprovalsJson file =
     (case member file ''socket'' of Inl e \<Rightarrow> Inl e
      | Inr sock \<Rightarrow>
     (case optTrim (optChain sock ''path'') of Inl e \<Rightarrow> Inl e
      | Inr socketPath \<Rightarrow>
     (case optTrim (optChain sock ''token'') of Inl e \<Rightarrow> Inl e
      | Inr token \<Rightarrow>
     (case member file ''defaults'' of Inl e \<Rightarrow> Inl e
      | Inr dflt \<Rightarrow>
     (case member file ''agents'' of Inl e \<Rightarrow> Inl e
      | Inr ags \<Rightarrow>
        Inr (JObj
          [(''version'', JNum 1),
           (''socket'', JObj (objProp ''path'' (nonEmptyStr socketPath)
                              @ objProp ''token'' (nonEmptyStr token))),
           (''defaults'', JObj (objProp ''security'' (optChain dflt ''security'')
                                @ objProp ''ask'' (optChain dflt ''ask'')
                                @ objProp ''askFallback'' (optChain dflt ''askFallback'')
                                @ objProp ''autoAllowSkills'' (optChain dflt ''autoAllowSkills''))),
           (''agents'', nullishJson ags (JObj []))]))))))"

text \<open>The literal \<^verbatim>\<open>{ version: 1, agents: {} }\<close>.\<close>

definition emptyFileLiteral :: json where
  "emptyFileLiteral = JObj [(''version'', JNum 1), (''agents'', JObj [])]"

text \<open>
  The approvals file on disk: missing (\<^verbatim>\<open>fs.existsSync\<close> is false), present but
  \<^verbatim>\<open>fs.readFileSync\<close> throws, or present with its content.
\<close>

datatype FileState = Missing | Unreadable | Content string

text \<open>\<^verbatim>\<open>try { body } catch { handler }\<close>.\<close>

definition tryCatch :: "JsError + 'a \<Rightarrow> JsError + 'a \<Rightarrow> JsError + 'a" where
  "tryCatch body handler = (case body of Inl e \<Rightarrow> handler | Inr v \<Rightarrow> Inr v)"

text \<open>
  \<^verbatim>\<open>loadExecApprovals\<close>. \<^verbatim>\<open>JSON.parse\<close> is the parameter \<open>parse\<close>, \<^term>\<open>None\<close>
  when it throws its \<^verbatim>\<open>SyntaxError\<close>. The version test is
  \<^verbatim>\<open>parsed?.version !== 1\<close>.
\<close>

definition loadExecApprovals :: "(string \<Rightarrow> json option) \<Rightarrow> FileState \<Rightarrow> JsError + json" where
  "loadExecApprovals parse st =
     tryCatch
       (case st of
          Missing \<Rightarrow> normalizeExecApprovalsJson (Some emptyFileLiteral)
        | Unreadable \<Rightarrow> Inl IoError
        | Content raw \<Rightarrow>
            (case parse raw of
               None \<Rightarrow> Inl SyntaxError
             | Some parsed \<Rightarrow>
                 if optChain (Some parsed) ''version'' \<noteq> Some (JNum 1)
                 then normalizeExecApprovalsJson (Some emptyFileLiteral)
                 else normalizeExecApprovalsJson (Some parsed)))
       (normalizeExecApprovalsJson (Some emptyFileLiteral))"

text \<open>What the claim calls the empty normalized file, and a normalized file.\<close>

definition emptyNormalized :: json where
  "emptyNormalized =
     JObj [(''version'', JNum 1), (''socket'', JObj []), (''defaults'', JObj []),
           (''agents'', JObj [])]"

fun isObject :: "json option \<Rightarrow> bool" where
  "isObject (Some (JObj kvs)) = True"
| "isObject v = False"

definition isNormalized :: "json \<Rightarrow> bool" where
  "isNormalized n =
     (getProp n ''version'' = Some (JNum 1)
      \<and> isObject (getProp n ''socket'')
      \<and> isObject (getProp n ''defaults'')
      \<and> getProp n ''agents'' \<noteq> None \<and> getProp n ''agents'' \<noteq> Some JNull)"

section \<open>The exec tool: composing host, security and ask\<close>

text \<open>
  \<^verbatim>\<open>src/agents/bash-tools.exec.ts\<close>. The fields of \<^verbatim>\<open>ExecToolDefaults\<close> and of the
  tool-call parameters that the gates up to the ask composition read.
\<close>

datatype ElevatedLevel = LevelOn | LevelOff







text \<open>
  The errors the gates throw. \<^verbatim>\<open>ElevatedNotAvailable\<close> carries the failing gate the
  message names: \<^verbatim>\<open>enabled\<close> when the elevated policy is missing or disabled,
  \<^verbatim>\<open>allowFrom\<close> otherwise.
\<close>

datatype ElevatedGate = GateEnabled | GateAllowFrom

datatype ExecError =
    ElevatedNotAvailable ElevatedGate
  | HostNotAllowed ExecHost ExecHost
  | SecurityDeny ExecHost
  | UserDenied
  | ApprovalRequired
  | AllowlistMiss
  | RegExpOutsideModel









section \<open>The exec tool: the approval gate of the gateway host\<close>

text \<open>
  The block \<^verbatim>\<open>if (host === "gateway")\<close> of \<^verbatim>\<open>execute\<close>. Its inputs are the security
  and ask composed before, the resolved approvals, the resolution of the command
  (\<^verbatim>\<open>resolveCommandResolution\<close> searches the file system, so its result is given), the
  command, and the \<^verbatim>\<open>decision\<close> that the approval request comes back with:
  \<^term>\<open>None\<close> for \<^verbatim>\<open>null\<close>. The request is made only when \<^verbatim>\<open>requiresAsk\<close> holds.
\<close>

definition hostSecurityOf :: "ExecSecurity \<Rightarrow> ExecApprovalsResolved \<Rightarrow> ExecSecurity" where
  "hostSecurityOf sec approvals = minSecurity sec (req_security (resolved_agent approvals))"

definition hostAskOf :: "ExecAsk \<Rightarrow> ExecApprovalsResolved \<Rightarrow> ExecAsk" where
  "hostAskOf a approvals = maxAsk a (req_ask (resolved_agent approvals))"

text \<open>
  \<^verbatim>\<open>hostSecurity === "allowlist" ? matchAllowlist(approvals.allowlist, resolution) : null\<close>
\<close>

definition allowlistMatchOf ::
  "Platform \<Rightarrow> ExecSecurity \<Rightarrow> ExecApprovalsResolved \<Rightarrow> CommandResolution option \<Rightarrow> MatchResult" where
  "allowlistMatchOf os hostSecurity approvals resolution =
     (if hostSecurity = SecAllowlist
      then matchAllowlist os (resolved_allowlist approvals) resolution
      else NoMatch)"

fun isMatched :: "MatchResult \<Rightarrow> bool" where
  "isMatched (Matched e) = True"
| "isMatched m = False"

fun matchedEntry :: "MatchResult \<Rightarrow> ExecAllowlistEntry option" where
  "matchedEntry (Matched e) = Some e"
| "matchedEntry m = None"

text \<open>
  \<^verbatim>\<open>hostAsk === "always" || (hostAsk === "on-miss" && hostSecurity === "allowlist" && !allowlistMatch)\<close>
\<close>

definition requiresAskOf :: "ExecAsk \<Rightarrow> ExecSecurity \<Rightarrow> MatchResult \<Rightarrow> bool" where
  "requiresAskOf hostAsk hostSecurity m =
     (hostAsk = AskAlways
      \<or> (hostAsk = AskOnMiss \<and> hostSecurity = SecAllowlist \<and> \<not> isMatched m))"

text \<open>
  The pattern \<^verbatim>\<open>allow-always\<close> adds:
  \<^verbatim>\<open>resolution?.resolvedPath ?? resolution?.rawExecutable ?? params.command.split(/\s+/).shift() ?? ""\<close>.
  The first piece of the split is what precedes the first white space.
\<close>

definition allowAlwaysPattern :: "CommandResolution option \<Rightarrow> string \<Rightarrow> string" where
  "allowAlwaysPattern resolution command =
     (case resolution of
        None \<Rightarrow> takeWhile (\<lambda>c. \<not> isJsWhitespace c) command
      | Some r \<Rightarrow> nullishOr (resolvedPath r) (rawExecutable r))"

text \<open>
  What the block leaves behind when it does not throw: whether the ask approved, the
  allowlist entry that matched (its use is then recorded), and the pattern handed to
  \<^verbatim>\<open>addAllowlistEntry\<close>.
\<close>

record GatewayApproval =
  approvedByAsk :: bool
  allowlistMatch :: "ExecAllowlistEntry option"
  addedPattern :: "string option"

text \<open>
  The body of \<^verbatim>\<open>if (requiresAsk)\<close>: the pair of \<^verbatim>\<open>approvedByAsk\<close> and the added
  pattern, or the error thrown. \<^verbatim>\<open>!decision\<close> holds for \<^verbatim>\<open>null\<close> and for the empty
  string.
\<close>

definition askStep ::
  "ExecSecurity \<Rightarrow> ExecSecurity \<Rightarrow> MatchResult \<Rightarrow> CommandResolution option \<Rightarrow> string
   \<Rightarrow> string option \<Rightarrow> ExecError + (bool \<times> string option)" where
  "askStep hostSecurity fallback m resolution command decision =
     (if decision = Some ''deny'' then Inl UserDenied
      else if decision = None \<or> decision = Some [] then
        (if fallback = SecFull then Inr (True, None)
         else if fallback = SecAllowlist then
           (if \<not> isMatched m then Inl ApprovalRequired else Inr (True, None))
         else Inl ApprovalRequired)
      else if decision = Some ''allow-once'' then Inr (True, None)
      else if decision = Some ''allow-always'' then
        (if hostSecurity = SecAllowlist \<and> allowAlwaysPattern resolution command \<noteq> []
         then Inr (True, Some (allowAlwaysPattern resolution command))
         else Inr (True, None))
      else Inr (False, None))"

definition gatewayGate ::
  "Platform \<Rightarrow> ExecSecurity \<Rightarrow> ExecAsk \<Rightarrow> ExecApprovalsResolved \<Rightarrow> CommandResolution option
   \<Rightarrow> string \<Rightarrow> string option \<Rightarrow> ExecError + GatewayApproval" where
  "gatewayGate os sec a approvals resolution command decision =
     (let hostSecurity = hostSecurityOf sec approvals;
          hostAsk = hostAskOf a approvals;
          fallback = req_askFallback (resolved_agent approvals)
      in if hostSecurity = SecDeny then Inl (SecurityDeny HostGateway)
         else
          (let m = allowlistMatchOf os hostSecurity approvals resolution in
           if m = MatchUnmodelled then Inl RegExpOutsideModel
           else
            (case (if requiresAskOf hostAsk hostSecurity m
                   then askStep hostSecurity fallback m resolution command decision
                   else Inr (False, None)) of
               Inl err \<Rightarrow> Inl err
             | Inr (approved, added) \<Rightarrow>
                 if hostSecurity = SecAllowlist \<and> \<not> isMatched m \<and> \<not> approved
                 then Inl AllowlistMiss
                 else Inr \<lparr> approvedByAsk = approved, allowlistMatch = matchedEntry m,
                            addedPattern = added \<rparr>)))"

section \<open>The exec tool: abort and timeout of a running command\<close>

text \<open>
  The mutable variables that the handlers \<^verbatim>\<open>onAbortSignal\<close>, \<^verbatim>\<open>onTimeout\<close>,
  \<^verbatim>\<open>onYieldNow\<close> and \<^verbatim>\<open>handleExit\<close> of \<^verbatim>\<open>execute\<close> share: the locals
  \<^verbatim>\<open>settled\<close>, \<^verbatim>\<open>yielded\<close>, \<^verbatim>\<open>timedOut\<close>, whether \<^verbatim>\<open>timeoutFinalizeTimer\<close> is set,
  and of the session \<^verbatim>\<open>session.backgrounded\<close> and \<^verbatim>\<open>session.exited\<close>.
  \<^verbatim>\<open>run_killRequests\<close> counts the calls of \<^verbatim>\<open>killSession(session)\<close>.
\<close>

record ExecRun =
  run_settled :: bool
  run_yielded :: bool
  run_timedOut :: bool
  run_finalizeTimerSet :: bool
  run_backgrounded :: bool
  run_exited :: bool
  run_killRequests :: nat

text \<open>
  Modelled from the spec: \<^verbatim>\<open>killSession\<close> of \<^verbatim>\<open>bash-tools.shared.js\<close> and
  \<^verbatim>\<open>markBackgrounded\<close>, \<^verbatim>\<open>markExited\<close> of \<^verbatim>\<open>bash-process-registry.js\<close> are imported by
  \<^verbatim>\<open>bash-tools.exec.ts\<close> and are not part of the sources at hand. \<^verbatim>\<open>killSession\<close> kills
  the child process of the session: the model records the request. \<^verbatim>\<open>markBackgrounded\<close>
  sets \<^verbatim>\<open>backgrounded\<close> and \<^verbatim>\<open>markExited\<close> sets \<^verbatim>\<open>exited\<close>.
\<close>

definition killSession :: "ExecRun \<Rightarrow> ExecRun" where
  "killSession s = s\<lparr> run_killRequests := Suc (run_killRequests s) \<rparr>"

definition markBackgrounded :: "ExecRun \<Rightarrow> ExecRun" where
  "markBackgrounded s = s\<lparr> run_backgrounded := True \<rparr>"

definition markExited :: "ExecRun \<Rightarrow> ExecRun" where
  "markExited s = s\<lparr> run_exited := True \<rparr>"

text \<open>
  \<^verbatim>\<open>// Tool-call abort should not kill backgrounded sessions; timeouts still must.\<close>
  \<^verbatim>\<open>if (yielded || session.backgrounded) return; killSession(session);\<close>
\<close>

definition onAbortSignal :: "ExecRun \<Rightarrow> ExecRun" where
  "onAbortSignal s = (if run_yielded s \<or> run_backgrounded s then s else killSession s)"

text \<open>
  \<^verbatim>\<open>// Timeouts always terminate, even for backgrounded sessions.\<close>
  \<^verbatim>\<open>timedOut = true; killSession(session);\<close> and the finalize timer is set once.
\<close>

definition onTimeout :: "ExecRun \<Rightarrow> ExecRun" where
  "onTimeout s =
     (let s1 = killSession (s\<lparr> run_timedOut := True \<rparr>) in
      if \<not> run_finalizeTimerSet s1 then s1\<lparr> run_finalizeTimerSet := True \<rparr> else s1)"

text \<open>
  \<^verbatim>\<open>finalizeTimeout\<close>, run by the finalize timer:
  \<^verbatim>\<open>if (session.exited) return; markExited(...); ... settle(() => rejectFn?.(...))\<close>.
\<close>

definition finalizeTimeout :: "ExecRun \<Rightarrow> ExecRun" where
  "finalizeTimeout s =
     (if run_exited s then s else (markExited s)\<lparr> run_settled := True \<rparr>)"

text \<open>
  \<^verbatim>\<open>onYieldNow\<close> and the callback of the yield timer:
  \<^verbatim>\<open>if (settled) return; yielded = true; markBackgrounded(session); resolveRunning();\<close>
  where \<^verbatim>\<open>resolveRunning\<close> settles the call.
\<close>

definition onYieldNow :: "ExecRun \<Rightarrow> ExecRun" where
  "onYieldNow s =
     (if run_settled s then s
      else (markBackgrounded (s\<lparr> run_yielded := True \<rparr>))\<lparr> run_settled := True \<rparr>)"

text \<open>
  \<^verbatim>\<open>handleExit\<close>: \<^verbatim>\<open>markExited\<close>, then \<^verbatim>\<open>if (yielded || session.backgrounded) return;\<close>,
  otherwise the call is settled with the result or the error.
\<close>

definition handleExit :: "ExecRun \<Rightarrow> ExecRun" where
  "handleExit s =
     (let s1 = markExited s in
      if run_yielded s1 \<or> run_backgrounded s1 then s1 else s1\<lparr> run_settled := True \<rparr>)"

text \<open>The state \<^verbatim>\<open>execute\<close> sets up after the spawn, before any handler has run.\<close>

definition initialRun :: ExecRun where
  "initialRun = \<lparr> run_settled = False, run_yielded = False, run_timedOut = False,
     run_finalizeTimerSet = False, run_backgrounded = False, run_exited = False,
     run_killRequests = 0 \<rparr>"

text \<open>What can happen to a running command, and the handler each event runs.\<close>

datatype ExecEvent = AbortSignal | TimeoutExpired | FinalizeTimerExpired | YieldTimerExpired | ChildExited

fun handleEvent :: "ExecRun \<Rightarrow> ExecEvent \<Rightarrow> ExecRun" where
  "handleEvent s AbortSignal = onAbortSignal s"
| "handleEvent s TimeoutExpired = onTimeout s"
| "handleEvent s FinalizeTimerExpired = finalizeTimeout s"
| "handleEvent s YieldTimerExpired = onYieldNow s"
| "handleEvent s ChildExited = handleExit s"

definition handleEvents :: "ExecRun \<Rightarrow> ExecEvent list \<Rightarrow> ExecRun" where
  "handleEvents s evs = foldl handleEvent s evs"

section \<open>The SSRF guard\<close>





















subsection \<open>IP literals and address ranges in the words of the specification\<close>













section \<open>Properties\<close>

subsection \<open>Algebra of the two mode combinators\<close>

lemma securityOrder_inj: "securityOrder a = securityOrder b \<Longrightarrow> a = b"
  by (cases a; cases b) simp_all

lemma askOrder_inj: "askOrder a = askOrder b \<Longrightarrow> a = b"
  by (cases a; cases b) simp_all

lemma securityOrder_minSecurity:
  "securityOrder (minSecurity a b) = min (securityOrder a) (securityOrder b)"
  by (simp add: minSecurity_def min_def)

lemma askOrder_maxAsk:
  "askOrder (maxAsk a b) = max (askOrder a) (askOrder b)"
  by (simp add: maxAsk_def max_def)

text \<open>
  Claim C5. \<^verbatim>\<open>minSecurity\<close> is commutative and associative on the three security
  modes and \<^verbatim>\<open>deny\<close> absorbs: \<^verbatim>\<open>minSecurity(deny, x) = deny\<close> for every \<^verbatim>\<open>x\<close>.
  \<^verbatim>\<open>maxAsk\<close> is commutative and associative on the three ask modes and
  \<^verbatim>\<open>always\<close> absorbs: \<^verbatim>\<open>maxAsk(always, x) = always\<close> for every \<^verbatim>\<open>x\<close>.
\<close>

theorem minSecurity_maxAsk_algebra:
  "minSecurity a b = minSecurity b a
   \<and> minSecurity (minSecurity a b) c = minSecurity a (minSecurity b c)
   \<and> minSecurity SecDeny a = SecDeny
   \<and> maxAsk p q = maxAsk q p
   \<and> maxAsk (maxAsk p q) r = maxAsk p (maxAsk q r)
   \<and> maxAsk AskAlways p = AskAlways"
proof -
  have c1: "minSecurity a b = minSecurity b a"
    by (rule securityOrder_inj) (simp add: securityOrder_minSecurity min.commute)
  have a1: "minSecurity (minSecurity a b) c = minSecurity a (minSecurity b c)"
    by (rule securityOrder_inj) (simp add: securityOrder_minSecurity min.assoc)
  have z1: "minSecurity SecDeny a = SecDeny"
    by (simp add: minSecurity_def)
  have c2: "maxAsk p q = maxAsk q p"
    by (rule askOrder_inj) (simp add: askOrder_maxAsk max.commute)
  have a2: "maxAsk (maxAsk p q) r = maxAsk p (maxAsk q r)"
    by (rule askOrder_inj) (simp add: askOrder_maxAsk max.assoc)
  have z2: "maxAsk AskAlways p = AskAlways"
    by (cases p) (simp_all add: maxAsk_def)
  from c1 a1 z1 c2 a2 z2 show ?thesis by blast
qed

subsection \<open>Composition of security and ask in the exec tool\<close>






subsection \<open>Abort and timeout of a running command\<close>

lemma killRequests_onAbortSignal_backgrounded:
  "run_yielded s \<or> run_backgrounded s \<Longrightarrow> onAbortSignal s = s"
  by (simp add: onAbortSignal_def)

lemma killRequests_onTimeout:
  "run_killRequests (onTimeout s) = Suc (run_killRequests s)"
  by (simp add: onTimeout_def killSession_def Let_def)

lemma detached_handleEvent:
  "run_yielded s \<or> run_backgrounded s \<Longrightarrow>
   run_yielded (handleEvent s e) \<or> run_backgrounded (handleEvent s e)"
  by (cases e)
     (auto simp add: onAbortSignal_def onTimeout_def finalizeTimeout_def onYieldNow_def
        handleExit_def killSession_def markExited_def markBackgrounded_def Let_def)

lemma killRequests_handleEvent_detached:
  "run_yielded s \<or> run_backgrounded s \<Longrightarrow>
   run_killRequests (handleEvent s e) =
     run_killRequests s + (if e = TimeoutExpired then 1 else 0)"
  by (cases e)
     (auto simp add: onAbortSignal_def onTimeout_def finalizeTimeout_def onYieldNow_def
        handleExit_def killSession_def markExited_def markBackgrounded_def Let_def)

lemma killRequests_handleEvents_detached:
  "run_yielded s \<or> run_backgrounded s \<Longrightarrow>
   run_killRequests (handleEvents s evs) =
     run_killRequests s + length (filter (\<lambda>e. e = TimeoutExpired) evs)"
proof (induction evs arbitrary: s)
  case Nil
  then show ?case by (simp add: handleEvents_def)
next
  case (Cons e evs)
  have step: "handleEvents s (e # evs) = handleEvents (handleEvent s e) evs"
    by (simp add: handleEvents_def)
  from Cons.prems have d: "run_yielded (handleEvent s e) \<or> run_backgrounded (handleEvent s e)"
    by (rule detached_handleEvent)
  show ?case
    unfolding step Cons.IH [OF d] killRequests_handleEvent_detached [OF Cons.prems]
    by simp
qed

text \<open>
  Claim C7. Once an exec session is backgrounded (\<^verbatim>\<open>session.backgrounded\<close> is set or
  the call has yielded) an abort signal of the tool call does not kill the child: the
  handler leaves the run as it is, and over any later sequence of events the child is
  killed once per timeout expiry and by nothing else. A timeout expiry kills the child
  in every state, backgrounded or not.
\<close>

theorem abort_spares_backgrounded_timeout_kills:
  "run_killRequests (onTimeout s) = Suc (run_killRequests s)
   \<and> (run_yielded s \<or> run_backgrounded s \<longrightarrow>
        onAbortSignal s = s
        \<and> run_killRequests (handleEvents s evs) =
            run_killRequests s + length (filter (\<lambda>e. e = TimeoutExpired) evs))"
  using killRequests_onTimeout killRequests_onAbortSignal_backgrounded
    killRequests_handleEvents_detached by blast

theorem abort_spares_backgrounded_timeout_kills_witness:
  "run_backgrounded (onYieldNow initialRun)
   \<and> run_killRequests
        (handleEvents (onYieldNow initialRun) [AbortSignal, TimeoutExpired, AbortSignal]) = 1
   \<and> run_killRequests (handleEvents initialRun [AbortSignal]) = 1"
proof -
  have b: "run_backgrounded (onYieldNow initialRun)"
    by (simp add: onYieldNow_def initialRun_def markBackgrounded_def)
  have k: "run_killRequests (onYieldNow initialRun) = 0"
    by (simp add: onYieldNow_def initialRun_def markBackgrounded_def)
  have a: "run_killRequests (handleEvents initialRun [AbortSignal]) = 1"
    by (simp add: handleEvents_def onAbortSignal_def initialRun_def killSession_def)
  from abort_spares_backgrounded_timeout_kills
         [of "onYieldNow initialRun" "[AbortSignal, TimeoutExpired, AbortSignal]"] b k a
  show ?thesis by simp
qed

subsection \<open>Resolution of the approvals file\<close>

















subsection \<open>Loading never fails\<close>

lemma normalize_emptyFileLiteral:
  "normalizeExecApprovalsJson (Some emptyFileLiteral) = Inr emptyNormalized"
  by (simp add: normalizeExecApprovalsJson_def emptyFileLiteral_def emptyNormalized_def
      member_def optChain_def optTrim_def objProp_def nonEmptyStr_def nullishJson_def)

lemma isNormalized_emptyNormalized: "isNormalized emptyNormalized"
  by (simp add: isNormalized_def emptyNormalized_def)

lemma nullishJson_defined:
  "nullishJson a (JObj []) \<noteq> JNull"
  by (cases a) (auto simp add: nullishJson_def split: json.splits)

lemma normalize_isNormalized:
  "normalizeExecApprovalsJson file = Inr n \<Longrightarrow> isNormalized n"
  by (auto simp add: normalizeExecApprovalsJson_def isNormalized_def nullishJson_defined
      split: sum.splits)

lemma loadExecApprovals_cases:
  "loadExecApprovals parse st = Inr emptyNormalized
   \<or> (\<exists>raw parsed. st = Content raw \<and> parse raw = Some parsed
        \<and> optChain (Some parsed) ''version'' = Some (JNum 1)
        \<and> loadExecApprovals parse st = normalizeExecApprovalsJson (Some parsed))"
proof (cases st)
  case Missing
  then show ?thesis
    by (simp add: loadExecApprovals_def tryCatch_def normalize_emptyFileLiteral)
next
  case Unreadable
  then show ?thesis
    by (simp add: loadExecApprovals_def tryCatch_def normalize_emptyFileLiteral)
next
  case (Content raw)
  show ?thesis
  proof (cases "parse raw")
    case None
    with Content show ?thesis
      by (simp add: loadExecApprovals_def tryCatch_def normalize_emptyFileLiteral)
  next
    case (Some parsed)
    show ?thesis
    proof (cases "optChain (Some parsed) ''version'' = Some (JNum 1)")
      case False
      with Content Some show ?thesis
        by (simp add: loadExecApprovals_def tryCatch_def normalize_emptyFileLiteral)
    next
      case True
      show ?thesis
      proof (cases "normalizeExecApprovalsJson (Some parsed)")
        case (Inl e)
        with Content Some True show ?thesis
          by (simp add: loadExecApprovals_def tryCatch_def normalize_emptyFileLiteral)
      next
        case (Inr n)
        with Content Some True show ?thesis
          by (simp add: loadExecApprovals_def tryCatch_def)
      qed
    qed
  qed
qed

lemma loadExecApprovals_total:
  "\<exists>n. loadExecApprovals parse st = Inr n \<and> isNormalized n"
proof -
  from loadExecApprovals_cases [of parse st] show ?thesis
  proof
    assume "loadExecApprovals parse st = Inr emptyNormalized"
    with isNormalized_emptyNormalized show ?thesis by blast
  next
    assume "\<exists>raw parsed. st = Content raw \<and> parse raw = Some parsed
        \<and> optChain (Some parsed) ''version'' = Some (JNum 1)
        \<and> loadExecApprovals parse st = normalizeExecApprovalsJson (Some parsed)"
    then obtain raw parsed where c: "st = Content raw" "parse raw = Some parsed"
      and v: "optChain (Some parsed) ''version'' = Some (JNum 1)"
      and l: "loadExecApprovals parse st = normalizeExecApprovalsJson (Some parsed)"
      by blast
    show ?thesis
    proof (cases "normalizeExecApprovalsJson (Some parsed)")
      case (Inl e)
      with c v have "loadExecApprovals parse st = Inr emptyNormalized"
        by (simp add: loadExecApprovals_def tryCatch_def normalize_emptyFileLiteral)
      with isNormalized_emptyNormalized show ?thesis by blast
    next
      case (Inr n)
      with l normalize_isNormalized [of "Some parsed" n] show ?thesis by simp
    qed
  qed
qed

lemma loadExecApprovals_degraded:
  assumes "st = Missing \<or> st = Unreadable
     \<or> (\<exists>raw. st = Content raw
          \<and> (parse raw = None
              \<or> (\<exists>parsed. parse raw = Some parsed
                    \<and> (optChain (Some parsed) ''version'' \<noteq> Some (JNum 1)
                        \<or> (\<exists>e. normalizeExecApprovalsJson (Some parsed) = Inl e)))))"
  shows "loadExecApprovals parse st = Inr emptyNormalized"
  using assms
  by (auto simp add: loadExecApprovals_def tryCatch_def normalize_emptyFileLiteral)

text \<open>
  Claim C10. \<^verbatim>\<open>loadExecApprovals\<close> is total: in every state of the approvals file it
  returns, and never throws, a normalized approvals file: version 1, a socket object, a
  defaults object and an agents value that is defined. When the file is missing or
  cannot be read, when its content is not valid JSON, when the parsed content has a
  version other than 1, and when the normalisation of version-1 content throws, the
  result is the empty normalized file.
\<close>

theorem loadExecApprovals_never_throws:
  "(\<exists>n. loadExecApprovals parse st = Inr n \<and> isNormalized n)
   \<and> (st = Missing \<or> st = Unreadable
       \<or> (\<exists>raw. st = Content raw
            \<and> (parse raw = None
                \<or> (\<exists>parsed. parse raw = Some parsed
                      \<and> (optChain (Some parsed) ''version'' \<noteq> Some (JNum 1)
                          \<or> (\<exists>e. normalizeExecApprovalsJson (Some parsed) = Inl e)))))
      \<longrightarrow> loadExecApprovals parse st = Inr emptyNormalized)"
  using loadExecApprovals_total [of parse st] loadExecApprovals_degraded [of st parse]
  by blast

theorem loadExecApprovals_never_throws_witness:
  "loadExecApprovals (\<lambda>raw. None) (Content ''{oops'') = Inr emptyNormalized
   \<and> loadExecApprovals (\<lambda>raw. Some (JObj [(''version'', JNum 2)])) (Content ''v2'')
       = Inr emptyNormalized
   \<and> loadExecApprovals
        (\<lambda>raw. Some (JObj [(''version'', JNum 1), (''socket'', JObj [(''path'', JNum 5)])]))
        (Content ''v1'')
       = Inr emptyNormalized
   \<and> loadExecApprovals (\<lambda>raw. None) Missing = Inr emptyNormalized"
proof -
  let ?bad = "JObj [(''version'', JNum 1), (''socket'', JObj [(''path'', JNum 5)])]"
  have a: "loadExecApprovals (\<lambda>raw. None) (Content ''{oops'') = Inr emptyNormalized"
    using loadExecApprovals_never_throws [of "\<lambda>raw. None" "Content ''{oops''"] by simp
  have b: "loadExecApprovals (\<lambda>raw. Some (JObj [(''version'', JNum 2)])) (Content ''v2'')
       = Inr emptyNormalized"
    using loadExecApprovals_never_throws
      [of "\<lambda>raw. Some (JObj [(''version'', JNum 2)])" "Content ''v2''"]
    by (simp add: optChain_def)
  have t: "normalizeExecApprovalsJson (Some ?bad) = Inl TypeError"
    by (simp add: normalizeExecApprovalsJson_def member_def optChain_def optTrim_def)
  have c: "loadExecApprovals (\<lambda>raw. Some ?bad) (Content ''v1'') = Inr emptyNormalized"
    using loadExecApprovals_never_throws [of "\<lambda>raw. Some ?bad" "Content ''v1''"] t
    by simp
  have d: "loadExecApprovals (\<lambda>raw. None) Missing = Inr emptyNormalized"
    using loadExecApprovals_never_throws [of "\<lambda>raw. None" Missing] by simp
  from a b c d show ?thesis by blast
qed

subsection \<open>Lower case and canonical characters\<close>

lemma of_char_less_256: "(of_char c :: nat) < 256"
  by (cases c) simp

lemma lowerCode_not_upper: "\<not> upperCode (lowerCode n)"
proof (cases "upperCode n")
  case True
  then have "\<not> upperCode (n + 32)" unfolding upperCode_def by arith
  with True show ?thesis by (simp add: lowerCode_def)
next
  case False
  then show ?thesis by (simp add: lowerCode_def)
qed

lemma lowerCode_less: "n < 256 \<Longrightarrow> lowerCode n < 256"
proof (cases "upperCode n")
  case True
  then have "n + 32 < 256" unfolding upperCode_def by arith
  with True show ?thesis by (simp add: lowerCode_def)
next
  case False
  assume "n < 256"
  with False show ?thesis by (simp add: lowerCode_def)
qed

lemma of_char_toLowerChar: "(of_char (toLowerChar c) :: nat) = lowerCode (of_char c)"
  using lowerCode_less [OF of_char_less_256 [of c]]
  by (simp add: toLowerChar_def)

lemma canonCode_letter:
  assumes "(97 \<le> x \<and> x \<le> 122) \<or> (224 \<le> x \<and> x \<le> 254 \<and> x \<noteq> 247)"
  shows "canonCode x = x - 32" and "upperCode (x - 32)" and "32 \<le> x"
proof -
  show "canonCode x = x - 32" unfolding canonCode_def by (rule if_P [OF assms])
  from assms show "32 \<le> x" by arith
  from assms show "upperCode (x - 32)" unfolding upperCode_def by arith
qed

lemma canonCode_other:
  assumes "\<not> ((97 \<le> x \<and> x \<le> 122) \<or> (224 \<le> x \<and> x \<le> 254 \<and> x \<noteq> 247))"
  shows "canonCode x = (if x = 255 then 376 else if x = 181 then 924 else x)"
  unfolding canonCode_def by (rule if_not_P [OF assms])

lemma upperCode_bound: "upperCode n \<Longrightarrow> n < 256"
  unfolding upperCode_def by arith

lemma canonCode_inj:
  assumes x: "x < 256" "\<not> upperCode x" and y: "y < 256" "\<not> upperCode y"
    and e: "canonCode x = canonCode y"
  shows "x = y"
proof (cases "(97 \<le> x \<and> x \<le> 122) \<or> (224 \<le> x \<and> x \<le> 254 \<and> x \<noteq> 247)")
  case lx: True
  show ?thesis
  proof (cases "(97 \<le> y \<and> y \<le> 122) \<or> (224 \<le> y \<and> y \<le> 254 \<and> y \<noteq> 247)")
    case ly: True
    from canonCode_letter [OF lx] canonCode_letter [OF ly] e show ?thesis by arith
  next
    case ly: False
    have u: "upperCode (canonCode y)"
      using canonCode_letter(1,2) [OF lx] e by simp
    from u have b: "canonCode y < 256" by (rule upperCode_bound)
    have "canonCode y = y"
      using canonCode_other [OF ly] b by (simp split: if_splits)
    with u y(2) show ?thesis by simp
  qed
next
  case lx: False
  show ?thesis
  proof (cases "(97 \<le> y \<and> y \<le> 122) \<or> (224 \<le> y \<and> y \<le> 254 \<and> y \<noteq> 247)")
    case ly: True
    have u: "upperCode (canonCode x)"
      using canonCode_letter(1,2) [OF ly] e by simp
    from u have b: "canonCode x < 256" by (rule upperCode_bound)
    have "canonCode x = x"
      using canonCode_other [OF lx] b by (simp split: if_splits)
    with u x(2) show ?thesis by simp
  next
    case ly: False
    from canonCode_other [OF lx] canonCode_other [OF ly] e x(1) y(1) show ?thesis
      by (simp split: if_splits)
  qed
qed

lemma canonicalize_toLowerChar_eq:
  "canonicalize (toLowerChar a) = canonicalize (toLowerChar b) \<longleftrightarrow> toLowerChar a = toLowerChar b"
proof
  assume h: "canonicalize (toLowerChar a) = canonicalize (toLowerChar b)"
  have "lowerCode (of_char a) = lowerCode (of_char b)"
  proof (rule canonCode_inj)
    show "lowerCode (of_char a) < 256" by (rule lowerCode_less [OF of_char_less_256])
    show "lowerCode (of_char b) < 256" by (rule lowerCode_less [OF of_char_less_256])
    show "\<not> upperCode (lowerCode (of_char a))" by (rule lowerCode_not_upper)
    show "\<not> upperCode (lowerCode (of_char b))" by (rule lowerCode_not_upper)
    from h show "canonCode (lowerCode (of_char a)) = canonCode (lowerCode (of_char b))"
      by (simp add: canonicalize_def of_char_toLowerChar)
  qed
  then have "(of_char (toLowerChar a) :: nat) = of_char (toLowerChar b)"
    by (simp add: of_char_toLowerChar)
  then show "toLowerChar a = toLowerChar b" by simp
next
  assume "toLowerChar a = toLowerChar b"
  then show "canonicalize (toLowerChar a) = canonicalize (toLowerChar b)" by simp
qed

lemma toLowerChar_fixed:
  assumes k: "\<not> upperCode (of_char k)" "\<not> upperCode (of_char k - 32)"
  shows "toLowerChar c = k \<longleftrightarrow> c = k"
proof -
  have m: "lowerCode (of_char c) = (of_char k :: nat) \<longleftrightarrow> (of_char c :: nat) = of_char k"
  proof (cases "upperCode (of_char c)")
    case True
    have "(of_char c :: nat) + 32 \<noteq> of_char k"
    proof
      assume "(of_char c :: nat) + 32 = of_char k"
      then have "(of_char k :: nat) - 32 = of_char c" by arith
      with True k(2) show False by simp
    qed
    moreover have "(of_char c :: nat) \<noteq> of_char k"
      using True k(1) by auto
    ultimately show ?thesis by (simp add: lowerCode_def True)
  next
    case False
    then show ?thesis by (simp add: lowerCode_def)
  qed
  have "toLowerChar c = k \<longleftrightarrow> (of_char (toLowerChar c) :: nat) = of_char k" by simp
  also have "\<dots> \<longleftrightarrow> (of_char c :: nat) = of_char k"
    unfolding of_char_toLowerChar by (rule m)
  also have "\<dots> \<longleftrightarrow> c = k" by simp
  finally show ?thesis .
qed

lemma toLowerChar_star: "toLowerChar c = CHR ''*'' \<longleftrightarrow> c = CHR ''*''"
  by (rule toLowerChar_fixed) (simp_all add: upperCode_def)

lemma toLowerChar_question: "toLowerChar c = CHR ''?'' \<longleftrightarrow> c = CHR ''?''"
  by (rule toLowerChar_fixed) (simp_all add: upperCode_def)

lemma toLowerChar_slash: "toLowerChar c = CHR ''/'' \<longleftrightarrow> c = CHR ''/''"
  by (rule toLowerChar_fixed) (simp_all add: upperCode_def)

lemma toLowerChar_backslash: "toLowerChar c = CHR 0x5C \<longleftrightarrow> c = CHR 0x5C"
  by (rule toLowerChar_fixed) (simp_all add: upperCode_def)

lemma toLowerChar_lf: "toLowerChar c = CHR 0x0A \<longleftrightarrow> c = CHR 0x0A"
  by (rule toLowerChar_fixed) (simp_all add: upperCode_def)

lemma toLowerChar_cr: "toLowerChar c = CHR 0x0D \<longleftrightarrow> c = CHR 0x0D"
  by (rule toLowerChar_fixed) (simp_all add: upperCode_def)

lemma isLineTerminator_toLowerChar: "isLineTerminator (toLowerChar c) \<longleftrightarrow> isLineTerminator c"
  unfolding isLineTerminator_def
  by (simp only: toLowerChar_lf toLowerChar_cr)

lemma syntax_char_fixed:
  assumes "k \<in> set ''^$.*+?()[]{}|''"
  shows "toLowerChar c = k \<longleftrightarrow> c = k"
  using assms
  by (auto intro!: toLowerChar_fixed simp add: upperCode_def)

lemma isSyntaxChar_toLowerChar: "isSyntaxChar (toLowerChar c) \<longleftrightarrow> isSyntaxChar c"
proof -
  have "toLowerChar c \<in> set ''^$.*+?()[]{}|'' \<longleftrightarrow> c \<in> set ''^$.*+?()[]{}|''"
    using syntax_char_fixed [of _ c] by (metis (full_types))
  then show ?thesis
    unfolding isSyntaxChar_def by (simp only: toLowerChar_backslash)
qed

lemma canonicalize_slash: "canonicalize c = canonicalize (CHR ''/'') \<longleftrightarrow> c = CHR ''/''"
proof
  assume h: "canonicalize c = canonicalize (CHR ''/'')"
  have s: "canonCode 47 = 47" by (simp add: canonCode_def)
  from h have h': "canonCode (of_char c) = 47" by (simp add: canonicalize_def s)
  have "(of_char c :: nat) = 47"
  proof (cases "(97 \<le> (of_char c :: nat) \<and> (of_char c :: nat) \<le> 122)
      \<or> (224 \<le> (of_char c :: nat) \<and> (of_char c :: nat) \<le> 254 \<and> (of_char c :: nat) \<noteq> 247)")
    case True
    from canonCode_letter(1) [OF True] h' True show ?thesis by arith
  next
    case False
    from canonCode_other [OF False] h' show ?thesis by (simp split: if_splits)
  qed
  then have "(of_char c :: nat) = of_char (CHR ''/'')" by simp
  then show "c = CHR ''/''" by (simp only: of_char_eq_iff)
next
  assume "c = CHR ''/''"
  then show "canonicalize c = canonicalize (CHR ''/'')" by simp
qed

subsection \<open>Compiled globs are the glob semantics\<close>

lemma dropWhile_id: "xs = [] \<or> \<not> P (hd xs) \<Longrightarrow> dropWhile P xs = xs"
  by (cases xs) auto

lemma trimEnd_id: "xs = [] \<or> \<not> isJsWhitespace (last xs) \<Longrightarrow> trimEnd xs = xs"
proof -
  assume a: "xs = [] \<or> \<not> isJsWhitespace (last xs)"
  have "dropWhile isJsWhitespace (rev xs) = rev xs"
    by (rule dropWhile_id) (use a in \<open>auto simp add: hd_rev\<close>)
  then show ?thesis by (simp add: trimEnd_def)
qed

lemma trimStart_head: "trimStart s = [] \<or> \<not> isJsWhitespace (hd (trimStart s))"
  unfolding trimStart_def using hd_dropWhile [of isJsWhitespace s] by blast

lemma trimEnd_last: "trimEnd s = [] \<or> \<not> isJsWhitespace (last (trimEnd s))"
proof -
  have "dropWhile isJsWhitespace (rev s) = [] \<or> \<not> isJsWhitespace (hd (dropWhile isJsWhitespace (rev s)))"
    using hd_dropWhile [of isJsWhitespace "rev s"] by blast
  then show ?thesis
    by (auto simp add: trimEnd_def last_rev)
qed

lemma trimEnd_prefix: "prefix (trimEnd s) s"
proof -
  have "suffix (dropWhile isJsWhitespace (rev s)) (rev s)"
    by (rule suffix_dropWhile)
  then have "prefix (rev (dropWhile isJsWhitespace (rev s))) (rev (rev s))"
    by (simp only: suffix_to_prefix)
  then show ?thesis by (simp add: trimEnd_def)
qed

lemma trim_head: "trim s = [] \<or> \<not> isJsWhitespace (hd (trim s))"
proof (cases "trim s = []")
  case True then show ?thesis by simp
next
  case False
  from trimEnd_prefix [of "trimStart s"] obtain zs where z: "trimStart s = trim s @ zs"
    by (auto simp add: trim_def prefix_def)
  with False have "hd (trimStart s) = hd (trim s)" by simp
  moreover from z False have "trimStart s \<noteq> []" by auto
  ultimately show ?thesis using trimStart_head [of s] by simp
qed

lemma trim_idem: "trim (trim s) = trim s"
proof -
  have "trimStart (trim s) = trim s"
    unfolding trimStart_def by (rule dropWhile_id) (rule trim_head)
  moreover have "trimEnd (trim s) = trim s"
    by (rule trimEnd_id) (simp add: trim_def trimEnd_last)
  ultimately show ?thesis by (simp add: trim_def [of "trim s"])
qed

lemma replaceBackslashPairs_id: "CHR 0x5C \<notin> set s \<Longrightarrow> replaceBackslashPairs s = s"
  by (induction s rule: replaceBackslashPairs.induct) auto

lemma replaceBackslashPairs_set: "set (replaceBackslashPairs s) \<subseteq> insert (CHR ''/'') (set s)"
  by (induction s rule: replaceBackslashPairs.induct) auto

lemma lineFree_replaceBackslashPairs: "lineFree s \<Longrightarrow> lineFree (replaceBackslashPairs s)"
  using replaceBackslashPairs_set [of s]
  by (auto simp add: lineFree_def list_all_iff isLineTerminator_def)

lemma escapeRegExp_single: "escapeRegExp [c] = [c]"
  by simp

lemma groupItems_itemTokens: "groupItems (concat (map itemTokens items)) = Some items"
proof (induction items)
  case Nil
  then show ?case by simp
next
  case (Cons i items)
  show ?case
  proof (cases i)
    case (RxStar a)
    with Cons show ?thesis by simp
  next
    case (RxOne a)
    show ?thesis
    proof (cases items)
      case Nil
      with RxOne show ?thesis by simp
    next
      case (Cons j rest)
      with RxOne Cons.IH show ?thesis by (cases j) simp_all
    qed
  qed
qed

lemma lexRegExp_globBody:
  "globOnly p \<Longrightarrow>
   lexRegExp (globBody p) = Some (concat (map itemTokens (map tokItem (globTokens p))))"
proof (induction p rule: globTokens.induct)
  case 1
  then show ?case by simp
next
  case (2 ch rest)
  show ?case
  proof (cases "ch = CHR ''*''")
    case star: True
    show ?thesis
    proof (cases rest)
      case Nil
      with star show ?thesis by simp
    next
      case (Cons nxt rest')
      show ?thesis
      proof (cases "nxt = CHR ''*''")
        case True
        from "2.prems" Cons have "globOnly rest'" by (simp add: globOnly_def)
        with "2.IH"(1) [OF star Cons True] star Cons True show ?thesis by simp
      next
        case False
        from "2.prems" have "globOnly rest" by (simp add: globOnly_def)
        with "2.IH"(2) [OF star Cons False] star Cons False show ?thesis by simp
      qed
    qed
  next
    case nostar: False
    from "2.prems" have r: "globOnly rest" by (simp add: globOnly_def)
    show ?thesis
    proof (cases "ch = CHR ''?''")
      case True
      with "2.IH"(3) [OF nostar True r] nostar show ?thesis by simp
    next
      case False
      from "2.prems" nostar False have ns: "\<not> isSyntaxChar ch" by (simp add: globOnly_def)
      then have "ch \<noteq> CHR ''.''" "ch \<noteq> CHR ''[''" by (auto simp add: isSyntaxChar_def)
      with "2.IH"(4) [OF nostar False r] nostar False ns show ?thesis by simp
    qed
  qed
qed

lemma parseRegExp_globToRegExp:
  assumes "globOnly p"
  shows "parseRegExp (globToRegExp p) = Some (map tokItem (globTokens p))"
proof -
  have "parseRegExp (globToRegExp p) =
        (case lexRegExp (globBody p) of None \<Rightarrow> None | Some ts \<Rightarrow> groupItems ts)"
    by (simp add: parseRegExp_def globToRegExp_def butlast_append)
  also have "\<dots> = groupItems (concat (map itemTokens (map tokItem (globTokens p))))"
    by (simp only: lexRegExp_globBody [OF assms] option.case)
  also have "\<dots> = Some (map tokItem (globTokens p))"
    by (rule groupItems_itemTokens)
  finally show ?thesis .
qed


lemma globTokens_toLowerCase: "globTokens (toLowerCase p) = map lowerToken (globTokens p)"
proof (induction p rule: globTokens.induct)
  case 1
  then show ?case by (simp add: toLowerCase_def)
next
  case (2 ch rest)
  have l: "toLowerCase (ch # rest) = toLowerChar ch # toLowerCase rest"
    by (simp add: toLowerCase_def)
  show ?case
  proof (cases "ch = CHR ''*''")
    case star: True
    then have ls: "toLowerChar ch = CHR ''*''" by (simp only: toLowerChar_star)
    show ?thesis
    proof (cases rest)
      case Nil
      with star ls show ?thesis by (simp add: toLowerCase_def)
    next
      case (Cons nxt rest')
      have l2: "toLowerCase rest = toLowerChar nxt # toLowerCase rest'"
        by (simp add: toLowerCase_def Cons)
      show ?thesis
      proof (cases "nxt = CHR ''*''")
        case True
        then have "toLowerChar nxt = CHR ''*''" by (simp only: toLowerChar_star)
        with "2.IH"(1) [OF star Cons True] star Cons True ls l l2 show ?thesis by simp
      next
        case False
        then have "toLowerChar nxt \<noteq> CHR ''*''" by (simp only: toLowerChar_star) simp
        with "2.IH"(2) [OF star Cons False] star Cons False ls l l2 show ?thesis by simp
      qed
    qed
  next
    case nostar: False
    then have ls: "toLowerChar ch \<noteq> CHR ''*''" by (simp only: toLowerChar_star) simp
    show ?thesis
    proof (cases "ch = CHR ''?''")
      case True
      then have "toLowerChar ch = CHR ''?''" by (simp only: toLowerChar_question)
      with "2.IH"(3) [OF nostar True] nostar True ls l show ?thesis by simp
    next
      case False
      then have "toLowerChar ch \<noteq> CHR ''?''" by (simp only: toLowerChar_question) simp
      with "2.IH"(4) [OF nostar False] nostar False ls l show ?thesis by simp
    qed
  qed
qed

lemma globOnly_toLowerCase: "globOnly p \<Longrightarrow> globOnly (toLowerCase p)"
  by (auto simp add: globOnly_def toLowerCase_def list_all_iff isSyntaxChar_toLowerChar
      toLowerChar_star toLowerChar_question)

lemma matchItems_globMatches:
  "lineFree t \<Longrightarrow>
   matchItems (map tokItem (map lowerToken toks)) (toLowerCase t) = globMatches toks t"
proof (induction toks t rule: globMatches.induct)
  case (1 s)
  then show ?case by (simp add: toLowerCase_def)
next
  case (2 ts)
  then show ?case by (simp add: toLowerCase_def)
next
  case (3 ts c s)
  from "3.prems" have c: "\<not> isLineTerminator c" and s: "lineFree s"
    by (simp_all add: lineFree_def)
  have l: "toLowerCase (c # s) = toLowerChar c # toLowerCase s" by (simp add: toLowerCase_def)
  from "3.IH"(1) [OF "3.prems"] "3.IH"(2) [OF s] c show ?case
    by (simp add: l isLineTerminator_toLowerChar)
next
  case (4 ts)
  then show ?case by (simp add: toLowerCase_def)
next
  case (5 ts c s)
  from "5.prems" have s: "lineFree s" by (simp add: lineFree_def)
  have l: "toLowerCase (c # s) = toLowerChar c # toLowerCase s" by (simp add: toLowerCase_def)
  from "5.IH"(1) [OF "5.prems"] "5.IH"(2) [OF s] show ?case
    by (auto simp add: l canonicalize_slash toLowerChar_slash)
next
  case (6 ts)
  then show ?case by (simp add: toLowerCase_def)
next
  case (7 ts c s)
  from "7.prems" have c: "\<not> isLineTerminator c" and s: "lineFree s"
    by (simp_all add: lineFree_def)
  have l: "toLowerCase (c # s) = toLowerChar c # toLowerCase s" by (simp add: toLowerCase_def)
  from "7.IH" [OF s] c show ?case
    by (simp add: l isLineTerminator_toLowerChar)
next
  case (8 p ts)
  then show ?case by (simp add: toLowerCase_def)
next
  case (9 p ts c s)
  from "9.prems" have s: "lineFree s" by (simp add: lineFree_def)
  have l: "toLowerCase (c # s) = toLowerChar c # toLowerCase s" by (simp add: toLowerCase_def)
  from "9.IH" [OF s] show ?case
    by (auto simp add: l canonicalize_toLowerChar_eq)
qed

lemma expandHome_no_tilde: "\<not> startsWith v ''~'' \<Longrightarrow> expandHome os v = v"
  by (cases v) (auto simp add: expandHome_def startsWith_def)

lemma globOnly_no_backslash: "globOnly p \<Longrightarrow> CHR 0x5C \<notin> set p"
  by (auto simp add: globOnly_def list_all_iff isSyntaxChar_def)

lemma matchesPattern_glob:
  assumes ne: "trim q \<noteq> []"
    and g: "globOnly (expandHome os (trim q))"
    and t: "lineFree target"
  shows "matchesPattern os (trim q) target =
     Some (globMatches (globTokens (expandHome os (trim q))) (replaceBackslashPairs target))"
proof -
  let ?x = "expandHome os (trim q)"
  have ex: "(if startsWith (trim q) ''~'' then expandHome os (trim q) else trim q) = ?x"
    by (simp add: expandHome_no_tilde)
  have np: "normalizeMatchTarget ?x = toLowerCase ?x"
    by (simp add: normalizeMatchTarget_def replaceBackslashPairs_id [OF globOnly_no_backslash [OF g]])
  have "matchesPattern os (trim q) target =
        regExpTest (globToRegExp (toLowerCase ?x)) (toLowerCase (replaceBackslashPairs target))"
    unfolding matchesPattern_def Let_def trim_idem ex np
    using ne by (simp add: normalizeMatchTarget_def)
  also have "\<dots> = Some (matchItems (map tokItem (globTokens (toLowerCase ?x)))
                        (toLowerCase (replaceBackslashPairs target)))"
    by (simp add: regExpTest_def parseRegExp_globToRegExp [OF globOnly_toLowerCase [OF g]])
  also have "\<dots> = Some (globMatches (globTokens ?x) (replaceBackslashPairs target))"
    by (simp only: globTokens_toLowerCase
        matchItems_globMatches [OF lineFree_replaceBackslashPairs [OF t]])
  finally show ?thesis .
qed

lemma lineFree_codeTarget: "lineFreeResolution r \<Longrightarrow> lineFree (codeTarget pat r)"
  by (auto simp add: lineFreeResolution_def codeTarget_def nullishOr_def split: option.splits)

lemma matchEntries_firstMatch:
  assumes r: "lineFreeResolution r"
  shows "list_all (\<lambda>e. globOnly (expandHome os (trim (pattern e)))) entries \<Longrightarrow>
         matchEntries os r entries = firstMatch os r entries"
proof (induction entries)
  case Nil
  then show ?case by (simp add: firstMatch_def)
next
  case (Cons e entries)
  from Cons.prems have g: "globOnly (expandHome os (trim (pattern e)))"
    and rest: "list_all (\<lambda>e. globOnly (expandHome os (trim (pattern e)))) entries"
    by simp_all
  note ih = Cons.IH [OF rest]
  have fm: "firstMatch os r (e # entries) =
            (if entryMatches os r e then Matched e else firstMatch os r entries)"
    by (simp add: firstMatch_def)
  have tgt: "(if includesChar (trim (pattern e)) (CHR ''/'') \<or> includesChar (trim (pattern e)) (CHR 0x5C)
                 \<or> includesChar (trim (pattern e)) (CHR ''~'')
              then nullishOr (resolvedPath r) (rawExecutable r) else executableName r)
             = codeTarget (trim (pattern e)) r"
    by (simp add: codeTarget_def)
  show ?case
  proof (cases "trim (pattern e) = []")
    case True
    then show ?thesis by (simp add: fm ih entryMatches_def)
  next
    case ne: False
    show ?thesis
    proof (cases "codeTarget (trim (pattern e)) r = []")
      case True
      with ne show ?thesis
        unfolding matchEntries.simps Let_def tgt by (simp add: fm ih entryMatches_def)
    next
      case nt: False
      have mp: "matchesPattern os (trim (pattern e)) (codeTarget (trim (pattern e)) r) =
        Some (globMatches (globTokens (expandHome os (trim (pattern e))))
                (replaceBackslashPairs (codeTarget (trim (pattern e)) r)))"
        by (rule matchesPattern_glob [OF ne g lineFree_codeTarget [OF r]])
      from ne nt show ?thesis
        unfolding matchEntries.simps Let_def tgt mp by (simp add: fm ih entryMatches_def)
    qed
  qed
qed

lemma matchAllowlist_firstMatch:
  assumes "lineFreeResolution r"
    and "list_all (\<lambda>e. globOnly (expandHome os (trim (pattern e)))) entries"
  shows "matchAllowlist os entries (Some r) = firstMatch os r entries"
proof (cases entries)
  case Nil
  then show ?thesis by (simp add: matchAllowlist_def firstMatch_def)
next
  case (Cons e es)
  then have "matchAllowlist os entries (Some r) = matchEntries os r entries"
    by (simp add: matchAllowlist_def)
  with matchEntries_firstMatch [OF assms] show ?thesis by simp
qed

lemma matchAllowlist_unescaped_dot:
  "matchAllowlist \<lparr> homedir = ''/home/u'', pathJoin = (\<lambda>a b. a @ ''/'' @ b), randomToken = ''t'' \<rparr>
     [\<lparr> pattern = ''python3.11'', lastUsedAt = None, lastUsedCommand = None,
        lastResolvedPath = None \<rparr>]
     (Some \<lparr> rawExecutable = ''python3x11'', resolvedPath = Some ''/usr/bin/python3x11'',
             executableName = ''python3x11'' \<rparr>)
   = Matched \<lparr> pattern = ''python3.11'', lastUsedAt = None, lastUsedCommand = None,
               lastResolvedPath = None \<rparr>"
  by code_simp

text \<open>
  Claim C1, as amended. For entries whose trimmed pattern, after the expansion of a
  leading \<^verbatim>\<open>~\<close>, has no regular-expression syntax character other than \<^verbatim>\<open>*\<close> and
  \<^verbatim>\<open>?\<close>, and a resolution without line terminators, \<^verbatim>\<open>matchAllowlist\<close> returns the
  first entry that matches in the glob semantics: \<^verbatim>\<open>**\<close> matches any characters
  including \<^verbatim>\<open>/\<close>, \<^verbatim>\<open>*\<close> anything except \<^verbatim>\<open>/\<close>, \<^verbatim>\<open>?\<close> one character, letters
  case-insensitively. The pattern is trimmed, and an empty pattern or an empty target
  never matches; a pattern that contains \<^verbatim>\<open>/\<close>, a backslash or \<^verbatim>\<open>~\<close> is matched
  against the resolved path, or the raw executable when there is none, any other
  pattern against the executable name. Entry \<^verbatim>\<open>RG\<close> matches the resolution of
  \<^verbatim>\<open>rg\<close> at \<^verbatim>\<open>/opt/homebrew/bin/rg\<close>, \<^verbatim>\<open>/opt/*/rg\<close> does not, \<^verbatim>\<open>/opt/**/rg\<close> does.
\<close>

theorem matchAllowlist_glob_semantics:
  "(lineFreeResolution r
      \<and> list_all (\<lambda>e. globOnly (expandHome os (trim (pattern e)))) entries
    \<longrightarrow> matchAllowlist os entries (Some r) = firstMatch os r entries)
   \<and> matchAllowlist os
        [\<lparr> pattern = ''RG'', lastUsedAt = None, lastUsedCommand = None, lastResolvedPath = None \<rparr>]
        (Some \<lparr> rawExecutable = ''rg'', resolvedPath = Some ''/opt/homebrew/bin/rg'',
                executableName = ''rg'' \<rparr>)
      = Matched \<lparr> pattern = ''RG'', lastUsedAt = None, lastUsedCommand = None,
                  lastResolvedPath = None \<rparr>
   \<and> matchAllowlist os
        [\<lparr> pattern = ''/opt/*/rg'', lastUsedAt = None, lastUsedCommand = None,
           lastResolvedPath = None \<rparr>]
        (Some \<lparr> rawExecutable = ''rg'', resolvedPath = Some ''/opt/homebrew/bin/rg'',
                executableName = ''rg'' \<rparr>)
      = NoMatch
   \<and> matchAllowlist os
        [\<lparr> pattern = ''/opt/**/rg'', lastUsedAt = None, lastUsedCommand = None,
           lastResolvedPath = None \<rparr>]
        (Some \<lparr> rawExecutable = ''rg'', resolvedPath = Some ''/opt/homebrew/bin/rg'',
                executableName = ''rg'' \<rparr>)
      = Matched \<lparr> pattern = ''/opt/**/rg'', lastUsedAt = None, lastUsedCommand = None,
                  lastResolvedPath = None \<rparr>"
proof -
  let ?r = "\<lparr> rawExecutable = ''rg'', resolvedPath = Some ''/opt/homebrew/bin/rg'',
              executableName = ''rg'' \<rparr>"
  let ?e = "\<lambda>p. \<lparr> pattern = p, lastUsedAt = None, lastUsedCommand = None,
                  lastResolvedPath = None \<rparr>"
  have lf: "lineFreeResolution ?r" by code_simp
  have t1: "trim ''RG'' = ''RG''" and t2: "trim ''/opt/*/rg'' = ''/opt/*/rg''"
    and t3: "trim ''/opt/**/rg'' = ''/opt/**/rg''"
    by code_simp+
  have x1: "expandHome os ''RG'' = ''RG''" and x2: "expandHome os ''/opt/*/rg'' = ''/opt/*/rg''"
    and x3: "expandHome os ''/opt/**/rg'' = ''/opt/**/rg''"
    by (simp_all add: expandHome_no_tilde startsWith_def)
  have g1: "globOnly ''RG''" and g2: "globOnly ''/opt/*/rg''" and g3: "globOnly ''/opt/**/rg''"
    by code_simp+
  have c1: "codeTarget ''RG'' ?r = ''rg''"
    and c2: "codeTarget ''/opt/*/rg'' ?r = ''/opt/homebrew/bin/rg''"
    and c3: "codeTarget ''/opt/**/rg'' ?r = ''/opt/homebrew/bin/rg''"
    by code_simp+
  have m1: "globMatches (globTokens ''RG'') (replaceBackslashPairs ''rg'')" by code_simp
  have m2: "\<not> globMatches (globTokens ''/opt/*/rg'') (replaceBackslashPairs ''/opt/homebrew/bin/rg'')"
    by code_simp
  have m3: "globMatches (globTokens ''/opt/**/rg'') (replaceBackslashPairs ''/opt/homebrew/bin/rg'')"
    by code_simp
  have h1: "list_all (\<lambda>e. globOnly (expandHome os (trim (pattern e)))) [?e ''RG'']"
    by (simp add: t1 x1 g1)
  have a: "matchAllowlist os [?e ''RG''] (Some ?r) = Matched (?e ''RG'')"
    unfolding matchAllowlist_firstMatch [OF lf h1] using m1
    by (simp add: firstMatch_def entryMatches_def t1 x1 c1)
  have h2: "list_all (\<lambda>e. globOnly (expandHome os (trim (pattern e)))) [?e ''/opt/*/rg'']"
    by (simp add: t2 x2 g2)
  have b: "matchAllowlist os [?e ''/opt/*/rg''] (Some ?r) = NoMatch"
    unfolding matchAllowlist_firstMatch [OF lf h2] using m2
    by (simp add: firstMatch_def entryMatches_def t2 x2 c2)
  have h3: "list_all (\<lambda>e. globOnly (expandHome os (trim (pattern e)))) [?e ''/opt/**/rg'']"
    by (simp add: t3 x3 g3)
  have c: "matchAllowlist os [?e ''/opt/**/rg''] (Some ?r) = Matched (?e ''/opt/**/rg'')"
    unfolding matchAllowlist_firstMatch [OF lf h3] using m3
    by (simp add: firstMatch_def entryMatches_def t3 x3 c3)
  from matchAllowlist_firstMatch [of r os entries] a b c show ?thesis by blast
qed

theorem matchAllowlist_glob_semantics_witness:
  "lineFreeResolution
     \<lparr> rawExecutable = ''rg'', resolvedPath = Some ''/opt/homebrew/bin/rg'', executableName = ''rg'' \<rparr>
   \<and> list_all (\<lambda>e. globOnly (expandHome
          \<lparr> homedir = ''/home/u'', pathJoin = (\<lambda>a b. a @ ''/'' @ b), randomToken = ''t'' \<rparr>
          (trim (pattern e))))
        [\<lparr> pattern = ''  '', lastUsedAt = None, lastUsedCommand = None, lastResolvedPath = None \<rparr>,
         \<lparr> pattern = ''~/bin/*'', lastUsedAt = None, lastUsedCommand = None, lastResolvedPath = None \<rparr>,
         \<lparr> pattern = '' R?'', lastUsedAt = None, lastUsedCommand = None, lastResolvedPath = None \<rparr>]
   \<and> matchAllowlist
        \<lparr> homedir = ''/home/u'', pathJoin = (\<lambda>a b. a @ ''/'' @ b), randomToken = ''t'' \<rparr>
        [\<lparr> pattern = ''  '', lastUsedAt = None, lastUsedCommand = None, lastResolvedPath = None \<rparr>,
         \<lparr> pattern = ''~/bin/*'', lastUsedAt = None, lastUsedCommand = None, lastResolvedPath = None \<rparr>,
         \<lparr> pattern = '' R?'', lastUsedAt = None, lastUsedCommand = None, lastResolvedPath = None \<rparr>]
        (Some \<lparr> rawExecutable = ''rg'', resolvedPath = Some ''/opt/homebrew/bin/rg'',
                executableName = ''rg'' \<rparr>)
      = Matched \<lparr> pattern = '' R?'', lastUsedAt = None, lastUsedCommand = None,
                  lastResolvedPath = None \<rparr>"
proof -
  let ?os = "\<lparr> homedir = ''/home/u'', pathJoin = (\<lambda>a b. a @ ''/'' @ b), randomToken = ''t'' \<rparr>"
  let ?r = "\<lparr> rawExecutable = ''rg'', resolvedPath = Some ''/opt/homebrew/bin/rg'',
              executableName = ''rg'' \<rparr>"
  let ?es = "[\<lparr> pattern = ''  '', lastUsedAt = None, lastUsedCommand = None, lastResolvedPath = None \<rparr>,
         \<lparr> pattern = ''~/bin/*'', lastUsedAt = None, lastUsedCommand = None, lastResolvedPath = None \<rparr>,
         \<lparr> pattern = '' R?'', lastUsedAt = None, lastUsedCommand = None, lastResolvedPath = None \<rparr>]"
  have lf: "lineFreeResolution ?r" by code_simp
  have go: "list_all (\<lambda>e. globOnly (expandHome ?os (trim (pattern e)))) ?es" by code_simp
  have fm: "firstMatch ?os ?r ?es
      = Matched \<lparr> pattern = '' R?'', lastUsedAt = None, lastUsedCommand = None,
                  lastResolvedPath = None \<rparr>"
    by code_simp
  from matchAllowlist_glob_semantics [of ?r ?os ?es] lf go
  have "matchAllowlist ?os ?es (Some ?r) = firstMatch ?os ?r ?es" by blast
  with lf go fm show ?thesis by simp
qed

text \<open>
  The claim as the specification states it fails where the code expands the home
  directory: the entry \<^verbatim>\<open>~/bin/rg\<close> matches the executable resolved to
  \<^verbatim>\<open>/home/u/bin/rg\<close>, which no glob reading of \<^verbatim>\<open>~/bin/rg\<close> does.
\<close>

theorem matchAllowlist_home_counterexample:
  "matchAllowlist
     \<lparr> homedir = ''/home/u'', pathJoin = (\<lambda>a b. a @ ''/'' @ b), randomToken = ''t'' \<rparr>
     [\<lparr> pattern = ''~/bin/rg'', lastUsedAt = None, lastUsedCommand = None,
        lastResolvedPath = None \<rparr>]
     (Some \<lparr> rawExecutable = ''rg'', resolvedPath = Some ''/home/u/bin/rg'',
             executableName = ''rg'' \<rparr>)
   = Matched \<lparr> pattern = ''~/bin/rg'', lastUsedAt = None, lastUsedCommand = None,
               lastResolvedPath = None \<rparr>
   \<and> specMatchAllowlist
     [\<lparr> pattern = ''~/bin/rg'', lastUsedAt = None, lastUsedCommand = None,
        lastResolvedPath = None \<rparr>]
     \<lparr> rawExecutable = ''rg'', resolvedPath = Some ''/home/u/bin/rg'', executableName = ''rg'' \<rparr>
   = None"
  by code_simp

subsection \<open>The approval gate of the gateway host\<close>

lemma gatewayGate_asked:
  assumes "hostSecurityOf sec approvals \<noteq> SecDeny"
    and "allowlistMatchOf os (hostSecurityOf sec approvals) approvals resolution \<noteq> MatchUnmodelled"
    and "requiresAskOf (hostAskOf a approvals) (hostSecurityOf sec approvals)
           (allowlistMatchOf os (hostSecurityOf sec approvals) approvals resolution)"
  shows "gatewayGate os sec a approvals resolution command decision =
     (case askStep (hostSecurityOf sec approvals) (req_askFallback (resolved_agent approvals))
             (allowlistMatchOf os (hostSecurityOf sec approvals) approvals resolution)
             resolution command decision of
        Inl err \<Rightarrow> Inl err
      | Inr (approved, added) \<Rightarrow>
          if hostSecurityOf sec approvals = SecAllowlist
             \<and> \<not> isMatched (allowlistMatchOf os (hostSecurityOf sec approvals) approvals resolution)
             \<and> \<not> approved
          then Inl AllowlistMiss
          else Inr \<lparr> approvedByAsk = approved,
                     allowlistMatch = matchedEntry
                       (allowlistMatchOf os (hostSecurityOf sec approvals) approvals resolution),
                     addedPattern = added \<rparr>)"
  using assms by (simp add: gatewayGate_def Let_def)

lemma isMatched_allowlistMatchOf:
  "isMatched (allowlistMatchOf os hs approvals resolution) \<longleftrightarrow>
     hs = SecAllowlist \<and> isMatched (matchAllowlist os (resolved_allowlist approvals) resolution)"
  by (simp add: allowlistMatchOf_def)

text \<open>
  Claim C3, as amended. When the approval request of the gateway host ends with a null
  decision, \<^verbatim>\<open>askFallback=full\<close> permits the command; \<^verbatim>\<open>askFallback=allowlist\<close>
  permits it exactly when the host security is \<^verbatim>\<open>allowlist\<close> and the allowlist
  matches the command resolution, and denies otherwise; \<^verbatim>\<open>askFallback=deny\<close> denies.
  An explicit \<^verbatim>\<open>deny\<close> decision denies.
\<close>

theorem gatewayGate_null_decision:
  assumes "hostSecurityOf sec approvals \<noteq> SecDeny"
    and "allowlistMatchOf os (hostSecurityOf sec approvals) approvals resolution \<noteq> MatchUnmodelled"
    and "requiresAskOf (hostAskOf a approvals) (hostSecurityOf sec approvals)
           (allowlistMatchOf os (hostSecurityOf sec approvals) approvals resolution)"
  shows "gatewayGate os sec a approvals resolution command None =
     (if req_askFallback (resolved_agent approvals) = SecFull
         \<or> (req_askFallback (resolved_agent approvals) = SecAllowlist
             \<and> hostSecurityOf sec approvals = SecAllowlist
             \<and> isMatched (matchAllowlist os (resolved_allowlist approvals) resolution))
      then Inr \<lparr> approvedByAsk = True,
                 allowlistMatch = matchedEntry
                   (allowlistMatchOf os (hostSecurityOf sec approvals) approvals resolution),
                 addedPattern = None \<rparr>
      else Inl ApprovalRequired)
    \<and> gatewayGate os sec a approvals resolution command (Some ''deny'') = Inl UserDenied"
proof -
  let ?m = "allowlistMatchOf os (hostSecurityOf sec approvals) approvals resolution"
  let ?fb = "req_askFallback (resolved_agent approvals)"
  have d: "gatewayGate os sec a approvals resolution command (Some ''deny'') = Inl UserDenied"
    unfolding gatewayGate_asked [OF assms] by (simp add: askStep_def)
  have n: "askStep (hostSecurityOf sec approvals) ?fb ?m resolution command None =
     (if ?fb = SecFull \<or> (?fb = SecAllowlist \<and> isMatched ?m)
      then Inr (True, None) else Inl ApprovalRequired)"
    by (cases ?fb) (simp_all add: askStep_def)
  show ?thesis
    unfolding d gatewayGate_asked [OF assms, of command None] n
    by (simp add: isMatched_allowlistMatchOf)
qed

theorem gatewayGate_null_decision_witness:
  "gatewayGate
     \<lparr> homedir = ''/home/u'', pathJoin = (\<lambda>a b. a @ ''/'' @ b), randomToken = ''t'' \<rparr>
     SecAllowlist AskAlways
     \<lparr> resolved_path = ''/home/u/.clawdbot/exec-approvals.json'',
       resolved_socketPath = ''/home/u/.clawdbot/exec-approvals.sock'', resolved_token = ''t'',
       resolved_defaults = \<lparr> req_security = SecAllowlist, req_ask = AskOnMiss,
         req_askFallback = SecDeny, req_autoAllowSkills = False \<rparr>,
       resolved_agent = \<lparr> req_security = SecAllowlist, req_ask = AskOnMiss,
         req_askFallback = SecAllowlist, req_autoAllowSkills = False \<rparr>,
       resolved_allowlist = [\<lparr> pattern = ''rg'', lastUsedAt = None, lastUsedCommand = None,
         lastResolvedPath = None \<rparr>],
       resolved_file = \<lparr> file_socket = None, file_defaults = None, file_agents = None \<rparr> \<rparr>
     (Some \<lparr> rawExecutable = ''rg'', resolvedPath = Some ''/opt/homebrew/bin/rg'',
             executableName = ''rg'' \<rparr>)
     ''rg -n foo'' None
   = Inr \<lparr> approvedByAsk = True,
           allowlistMatch = Some \<lparr> pattern = ''rg'', lastUsedAt = None, lastUsedCommand = None,
             lastResolvedPath = None \<rparr>,
           addedPattern = None \<rparr>"
proof -
  let ?os = "\<lparr> homedir = ''/home/u'', pathJoin = (\<lambda>a b. a @ ''/'' @ b), randomToken = ''t'' \<rparr>"
  let ?ap = "\<lparr> resolved_path = ''/home/u/.clawdbot/exec-approvals.json'',
       resolved_socketPath = ''/home/u/.clawdbot/exec-approvals.sock'', resolved_token = ''t'',
       resolved_defaults = \<lparr> req_security = SecAllowlist, req_ask = AskOnMiss,
         req_askFallback = SecDeny, req_autoAllowSkills = False \<rparr>,
       resolved_agent = \<lparr> req_security = SecAllowlist, req_ask = AskOnMiss,
         req_askFallback = SecAllowlist, req_autoAllowSkills = False \<rparr>,
       resolved_allowlist = [\<lparr> pattern = ''rg'', lastUsedAt = None, lastUsedCommand = None,
         lastResolvedPath = None \<rparr>],
       resolved_file = \<lparr> file_socket = None, file_defaults = None, file_agents = None \<rparr> \<rparr>"
  let ?r = "Some \<lparr> rawExecutable = ''rg'', resolvedPath = Some ''/opt/homebrew/bin/rg'',
             executableName = ''rg'' \<rparr>"
  have hs: "hostSecurityOf SecAllowlist ?ap = SecAllowlist" by code_simp
  have ha: "hostAskOf AskAlways ?ap = AskAlways" by code_simp
  have ma: "matchAllowlist ?os (resolved_allowlist ?ap) ?r =
      Matched \<lparr> pattern = ''rg'', lastUsedAt = None, lastUsedCommand = None,
                lastResolvedPath = None \<rparr>"
    by code_simp
  have m: "allowlistMatchOf ?os SecAllowlist ?ap ?r =
      Matched \<lparr> pattern = ''rg'', lastUsedAt = None, lastUsedCommand = None,
                lastResolvedPath = None \<rparr>"
    unfolding allowlistMatchOf_def ma by simp
  have h1: "hostSecurityOf SecAllowlist ?ap \<noteq> SecDeny" unfolding hs by simp
  have h2: "allowlistMatchOf ?os (hostSecurityOf SecAllowlist ?ap) ?ap ?r \<noteq> MatchUnmodelled"
    unfolding hs m by simp
  have h3: "requiresAskOf (hostAskOf AskAlways ?ap) (hostSecurityOf SecAllowlist ?ap)
           (allowlistMatchOf ?os (hostSecurityOf SecAllowlist ?ap) ?ap ?r)"
    unfolding ha requiresAskOf_def by simp
  have fb: "req_askFallback (resolved_agent ?ap) = SecAllowlist" by simp
  from gatewayGate_null_decision [OF h1 h2 h3, of "''rg -n foo''"] show ?thesis
    unfolding hs m ma fb by simp
qed

text \<open>
  The claim as stated fails when the host security is \<^verbatim>\<open>full\<close>: the allowlist is
  then not consulted, so with \<^verbatim>\<open>ask=always\<close> and \<^verbatim>\<open>askFallback=allowlist\<close> a null
  decision denies a command that the allowlist matches.
\<close>

theorem gatewayGate_full_security_counterexample:
  "matchAllowlist
     \<lparr> homedir = ''/home/u'', pathJoin = (\<lambda>a b. a @ ''/'' @ b), randomToken = ''t'' \<rparr>
     [\<lparr> pattern = ''rg'', lastUsedAt = None, lastUsedCommand = None, lastResolvedPath = None \<rparr>]
     (Some \<lparr> rawExecutable = ''rg'', resolvedPath = Some ''/opt/homebrew/bin/rg'',
             executableName = ''rg'' \<rparr>)
   = Matched \<lparr> pattern = ''rg'', lastUsedAt = None, lastUsedCommand = None,
               lastResolvedPath = None \<rparr>
   \<and> gatewayGate
     \<lparr> homedir = ''/home/u'', pathJoin = (\<lambda>a b. a @ ''/'' @ b), randomToken = ''t'' \<rparr>
     SecFull AskAlways
     \<lparr> resolved_path = ''/home/u/.clawdbot/exec-approvals.json'',
       resolved_socketPath = ''/home/u/.clawdbot/exec-approvals.sock'', resolved_token = ''t'',
       resolved_defaults = \<lparr> req_security = SecAllowlist, req_ask = AskOnMiss,
         req_askFallback = SecDeny, req_autoAllowSkills = False \<rparr>,
       resolved_agent = \<lparr> req_security = SecFull, req_ask = AskAlways,
         req_askFallback = SecAllowlist, req_autoAllowSkills = False \<rparr>,
       resolved_allowlist = [\<lparr> pattern = ''rg'', lastUsedAt = None, lastUsedCommand = None,
         lastResolvedPath = None \<rparr>],
       resolved_file = \<lparr> file_socket = None, file_defaults = None, file_agents = None \<rparr> \<rparr>
     (Some \<lparr> rawExecutable = ''rg'', resolvedPath = Some ''/opt/homebrew/bin/rg'',
             executableName = ''rg'' \<rparr>)
     ''rg -n foo'' None
   = Inl ApprovalRequired"
  by code_simp

subsection \<open>The SSRF guard\<close>



lemma lowerCode_idem: "lowerCode (lowerCode n) = lowerCode n"
  using lowerCode_not_upper [of n] by (simp add: lowerCode_def [of "lowerCode n"])

lemma toLowerChar_idem: "toLowerChar (toLowerChar c) = toLowerChar c"
proof -
  have "(of_char (toLowerChar (toLowerChar c)) :: nat) = of_char (toLowerChar c)"
    by (simp only: of_char_toLowerChar lowerCode_idem)
  then show ?thesis by (simp only: of_char_eq_iff)
qed

lemma toLowerCase_idem: "toLowerCase (toLowerCase s) = toLowerCase s"
  by (simp add: toLowerCase_def toLowerChar_idem)










































end
